theory Spec2Isabelle
  imports Complex_Main "HOL-Library.Log_Nat"
begin

section \<open>Numbers\<close>

text \<open>
  The engine is TypeScript; every \<^verbatim>\<open>number\<close> is an IEEE 754 double. Counters that
  the code only ever increments, decrements by a cost or compares (currency, score,
  upgrade levels, the option \<^verbatim>\<open>maxParticles\<close>, \<^verbatim>\<open>Date.now()\<close> readings) are
  \<^typ>\<open>int\<close>: they are integers of magnitude below \<open>2 ^ 53\<close>, which a double holds
  exactly. Continuous quantities that only place and move particles (positions,
  velocities, sizes, random draws) are idealised as \<^typ>\<open>real\<close>.

  Where an integer comes out of arithmetic on fractions (the particle count of
  \<^verbatim>\<open>initParticles\<close>, the prices of \<^verbatim>\<open>getUpgradeCost\<close>) each operation is rounded the
  way the machine rounds it. \<open>rnd x\<close> is the double nearest to \<open>x\<close>, a tie going to the
  even significand, with the exponent unbounded above. \<open>binade x\<close> is the exponent \<open>e\<close>
  with \<open>2 ^ e \<le> \<bar>x\<bar> < 2 ^ (e + 1)\<close>; a double has 53 significant bits, so its grid
  in that binade has the step \<open>2 ^ (e - 52)\<close>, and below \<open>2 ^ - 1022\<close> the grid is the
  subnormal one of step \<open>2 ^ - 1074\<close>.
\<close>

definition binade :: "real \<Rightarrow> int" where
  "binade x =
     (if 1 \<le> \<bar>x\<bar> then bitlen \<lfloor>\<bar>x\<bar>\<rfloor> - 1 else - bitlen (\<lceil>1 / \<bar>x\<bar>\<rceil> - 1))"

definition round_even :: "real \<Rightarrow> int" where
  "round_even n =
     (let f = \<lfloor>n\<rfloor>
      in if n - of_int f < 1 / 2 then f
         else if 1 / 2 < n - of_int f then f + 1
         else if even f then f else f + 1)"

definition rnd :: "real \<Rightarrow> real" where
  "rnd x =
     (if x = 0 then 0
      else (let e = max (binade x) (- 1022);
                q = 2 powi (e - 52)
            in of_int (round_even (x / q)) * q))"

text \<open>
  A \<^verbatim>\<open>number\<close> with its values that are not finite (negative zero is identified with
  zero). \<open>round_double x\<close> is the result of an operation whose exact value is \<open>x\<close>: the
  nearest double, or an infinity when rounding reaches \<open>2 ^ 1024\<close>. \<open>number_times\<close>,
  \<open>number_less\<close>, \<open>Math_floor\<close> and \<open>isFinite\<close> are the operators \<^verbatim>\<open>*\<close> and
  \<^verbatim>\<open><\<close> and the functions \<^verbatim>\<open>Math.floor\<close> and \<^verbatim>\<open>isFinite\<close>.
\<close>

datatype number = Finite real | PosInfinity | NegInfinity | NaN

definition round_double :: "real \<Rightarrow> number" where
  "round_double x =
     (if 2 ^ 1024 \<le> \<bar>rnd x\<bar> then (if 0 < x then PosInfinity else NegInfinity)
      else Finite (rnd x))"

fun number_times :: "number \<Rightarrow> number \<Rightarrow> number" where
  "number_times (Finite x) (Finite y) = round_double (x * y)"
| "number_times NaN _ = NaN"
| "number_times _ NaN = NaN"
| "number_times (Finite x) PosInfinity =
     (if x = 0 then NaN else if 0 < x then PosInfinity else NegInfinity)"
| "number_times (Finite x) NegInfinity =
     (if x = 0 then NaN else if 0 < x then NegInfinity else PosInfinity)"
| "number_times PosInfinity (Finite y) =
     (if y = 0 then NaN else if 0 < y then PosInfinity else NegInfinity)"
| "number_times NegInfinity (Finite y) =
     (if y = 0 then NaN else if 0 < y then NegInfinity else PosInfinity)"
| "number_times PosInfinity PosInfinity = PosInfinity"
| "number_times PosInfinity NegInfinity = NegInfinity"
| "number_times NegInfinity PosInfinity = NegInfinity"
| "number_times NegInfinity NegInfinity = PosInfinity"

fun Math_floor :: "number \<Rightarrow> number" where
  "Math_floor (Finite x) = Finite (of_int \<lfloor>x\<rfloor>)"
| "Math_floor PosInfinity = PosInfinity"
| "Math_floor NegInfinity = NegInfinity"
| "Math_floor NaN = NaN"

fun number_less :: "number \<Rightarrow> number \<Rightarrow> bool" where
  "number_less (Finite x) (Finite y) = (x < y)"
| "number_less NaN _ = False"
| "number_less _ NaN = False"
| "number_less PosInfinity _ = False"
| "number_less _ NegInfinity = False"
| "number_less (Finite x) PosInfinity = True"
| "number_less NegInfinity (Finite y) = True"
| "number_less NegInfinity PosInfinity = True"

fun isFinite :: "number \<Rightarrow> bool" where
  "isFinite (Finite x) = True"
| "isFinite PosInfinity = False"
| "isFinite NegInfinity = False"
| "isFinite NaN = False"

section \<open>Data model (useParticleAnimation.ts, the variant with upgrades)\<close>

text \<open>
  The file holds two variants of the hook. The interface \<^verbatim>\<open>Particle\<close> of the first
  (no currency, no upgrades) is \<open>SimpleParticle\<close>; the second variant's interface has
  the same fields and four more, so it is an extension of the first.
  Field names follow the source. The particle's \<^verbatim>\<open>x\<close>, \<^verbatim>\<open>y\<close> and \<^verbatim>\<open>size\<close> are
  \<open>px\<close>, \<open>py\<close> and \<open>psize\<close>. The optional flags \<^verbatim>\<open>isTarget?\<close> and
  \<^verbatim>\<open>isCollector?\<close> are options: \<open>None\<close> is the absent field, which reads as falsy.
  A colour string \<^verbatim>\<open>rgba(r, g, b, a)\<close> is kept as its four components.
\<close>

datatype ParticleBehavior = normal | seeker | avoider | collector

datatype rgba = Rgba int int int real

record SimpleParticle =
  px :: real
  py :: real
  psize :: real
  vx :: real
  vy :: real
  color :: rgba
  alpha :: real
  isTarget :: "bool option"

record Particle = SimpleParticle +
  isCollector :: "bool option"
  autonomy :: real
  behavior :: ParticleBehavior
  lastDirectionChange :: int

definition truthy :: "bool option \<Rightarrow> bool" where
  "truthy b = (b = Some True)"

record GameUpgrades =
  maxParticles :: int
  particleSize :: int
  interactionRadius :: int
  targetSpawnRate :: int
  autoCollectors :: int
  particleSpeed :: int
  autonomyLevel :: int

record GameState =
  currency :: int
  score :: int
  level :: int
  upgrades :: GameUpgrades
  lastUpdate :: int
  gameStarted :: bool
  highestCurrency :: int

text \<open>\<^verbatim>\<open>keyof GameUpgrades\<close>, with reading and writing \<^verbatim>\<open>upgrades[key]\<close>.\<close>

datatype UpgradeKey =
  K_maxParticles | K_particleSize | K_interactionRadius | K_targetSpawnRate
  | K_autoCollectors | K_particleSpeed | K_autonomyLevel

fun getUpgrade :: "GameUpgrades \<Rightarrow> UpgradeKey \<Rightarrow> int" where
  "getUpgrade u K_maxParticles = maxParticles u"
| "getUpgrade u K_particleSize = particleSize u"
| "getUpgrade u K_interactionRadius = interactionRadius u"
| "getUpgrade u K_targetSpawnRate = targetSpawnRate u"
| "getUpgrade u K_autoCollectors = autoCollectors u"
| "getUpgrade u K_particleSpeed = particleSpeed u"
| "getUpgrade u K_autonomyLevel = autonomyLevel u"

fun setUpgrade :: "GameUpgrades \<Rightarrow> UpgradeKey \<Rightarrow> int \<Rightarrow> GameUpgrades" where
  "setUpgrade u K_maxParticles v = u\<lparr>maxParticles := v\<rparr>"
| "setUpgrade u K_particleSize v = u\<lparr>particleSize := v\<rparr>"
| "setUpgrade u K_interactionRadius v = u\<lparr>interactionRadius := v\<rparr>"
| "setUpgrade u K_targetSpawnRate v = u\<lparr>targetSpawnRate := v\<rparr>"
| "setUpgrade u K_autoCollectors v = u\<lparr>autoCollectors := v\<rparr>"
| "setUpgrade u K_particleSpeed v = u\<lparr>particleSpeed := v\<rparr>"
| "setUpgrade u K_autonomyLevel v = u\<lparr>autonomyLevel := v\<rparr>"

text \<open>The hook's options, and their destructuring with defaults.\<close>

record ParticleAnimationOptions =
  opt_maxParticles :: "int option"
  opt_interactionRadius :: "real option"
  opt_repulsionStrength :: "real option"
  opt_targetSpawnRate :: "real option"

definition maxParticlesOf :: "ParticleAnimationOptions \<Rightarrow> int" where
  "maxParticlesOf options = (case opt_maxParticles options of None \<Rightarrow> 50 | Some v \<Rightarrow> v)"

definition interactionRadiusOf :: "ParticleAnimationOptions \<Rightarrow> real" where
  "interactionRadiusOf options =
     (case opt_interactionRadius options of None \<Rightarrow> 150 | Some v \<Rightarrow> v)"

definition repulsionStrengthOf :: "ParticleAnimationOptions \<Rightarrow> real" where
  "repulsionStrengthOf options =
     (case opt_repulsionStrength options of None \<Rightarrow> 0.08 | Some v \<Rightarrow> v)"

definition targetSpawnRateOf :: "ParticleAnimationOptions \<Rightarrow> real" where
  "targetSpawnRateOf options =
     (case opt_targetSpawnRate options of None \<Rightarrow> 0.01 | Some v \<Rightarrow> v)"

text \<open>The initial \<^verbatim>\<open>useState\<close> value; \<open>t\<close> is the \<^verbatim>\<open>Date.now()\<close> of the first render.\<close>

definition initialGameState :: "int \<Rightarrow> GameState" where
  "initialGameState t =
     \<lparr>currency = 0, score = 0, level = 1,
      upgrades = \<lparr>maxParticles = 1, particleSize = 1, interactionRadius = 1,
        targetSpawnRate = 1, autoCollectors = 0, particleSpeed = 1, autonomyLevel = 0\<rparr>,
      lastUpdate = t, gameStarted = False, highestCurrency = 0\<rparr>"

subsection \<open>The platform and the engine's mutable state\<close>

text \<open>
  \<open>randomValues k\<close> and \<open>clockValues k\<close> are what the \<open>k\<close>-th call of
  \<^verbatim>\<open>Math.random()\<close> and of \<^verbatim>\<open>Date.now()\<close> return; the engine counts its calls.
  \<open>canvas\<close> is \<^verbatim>\<open>canvasRef.current\<close> (width and height, \<open>None\<close> for null) and
  \<open>mousePositionRef\<close> the pointer sample of the shell (\<open>None\<close> for null).
\<close>

record MousePosition =
  mouse_x :: real
  mouse_y :: real
  isMoving :: bool

record platform =
  randomValues :: "nat \<Rightarrow> real"
  clockValues :: "nat \<Rightarrow> int"
  canvas :: "(real \<times> real) option"
  mousePositionRef :: "MousePosition option"

text \<open>
  \<open>gameState\<close> is the React state as the next updater sees it (\<^verbatim>\<open>prev\<close>). A function
  of the hook that reads the variable \<^verbatim>\<open>gameState\<close> reads the value its closure
  captured at render time; such functions take that value as the parameter \<open>gs\<close>.
  The state cells \<^verbatim>\<open>showShop\<close> and \<^verbatim>\<open>uiTakeover\<close> and the refs \<^verbatim>\<open>requestRef\<close>
  and \<^verbatim>\<open>lastTimeRef\<close>, which none of the functions below reads or writes, are left out.
\<close>

record engine =
  gameState :: GameState
  showScore :: bool
  showHint :: bool
  particlesRef :: "Particle list"
  canvasSizeRef :: "real \<times> real"
  targetCollectedTimeRef :: int
  interactionStartTimeRef :: int
  scaledMousePosRef :: "real \<times> real"
  randomCalls :: nat
  clockCalls :: nat

datatype error = TypeError

definition Math_random :: "platform \<Rightarrow> engine \<Rightarrow> real \<times> engine" where
  "Math_random pf st = (randomValues pf (randomCalls st), st\<lparr>randomCalls := Suc (randomCalls st)\<rparr>)"

definition Date_now :: "platform \<Rightarrow> engine \<Rightarrow> int \<times> engine" where
  "Date_now pf st = (clockValues pf (clockCalls st), st\<lparr>clockCalls := Suc (clockCalls st)\<rparr>)"

section \<open>Particle population initializer\<close>

text \<open>One iteration of the loop of \<^verbatim>\<open>initParticles\<close>, at index \<open>i\<close>.\<close>

definition createParticle ::
  "platform \<Rightarrow> GameState \<Rightarrow> real \<times> real \<Rightarrow> int \<Rightarrow> engine \<Rightarrow> engine" where
  "createParticle pf gs cv i st0 =
     (let isCollector' = (i < autoCollectors (upgrades gs));
          behavior' =
            (if isCollector' then collector
             else if i mod 10 = 0 \<and> autonomyLevel (upgrades gs) > 2 then seeker
             else if i mod 15 = 0 \<and> autonomyLevel (upgrades gs) > 3 then avoider
             else normal);
          baseAutonomy = min 0.8 (real_of_int (autonomyLevel (upgrades gs)) * 0.2);
          (r0, st1) = Math_random pf st0;
          autonomy' = baseAutonomy * (0.5 + r0 * 0.5);
          (r1, st2) = Math_random pf st1;
          (r2, st3) = Math_random pf st2;
          (r3, st4) = Math_random pf st3;
          (r4, st5) = Math_random pf st4;
          (r5, st6) = Math_random pf st5;
          (r6, st7) = Math_random pf st6;
          (r7, st8) = Math_random pf st7
      in st8\<lparr>particlesRef := particlesRef st8 @
           [\<lparr>px = r1 * fst cv,
             py = r2 * snd cv,
             psize = (1 + r3 * 2) * (1 + real_of_int (particleSize (upgrades gs)) * 0.1),
             vx = (r4 - 0.5) * 0.5 * real_of_int (particleSpeed (upgrades gs)),
             vy = (r5 - 0.5) * 0.5 * real_of_int (particleSpeed (upgrades gs)),
             color =
               (if behavior' = collector then Rgba 0 255 150 (0.7 + r6 * 0.3)
                else if behavior' = seeker then Rgba 255 100 50 (0.6 + r6 * 0.4)
                else if behavior' = avoider then Rgba 150 50 255 (0.6 + r6 * 0.4)
                else Rgba 0 246 255 (0.5 + r6 * 0.5)),
             alpha = 0.5 + r7 * 0.5,
             isTarget = Some (i < 3),
             isCollector = Some isCollector',
             autonomy = autonomy',
             behavior = behavior',
             lastDirectionChange = 0\<rparr>]\<rparr>)"

function initLoop ::
  "platform \<Rightarrow> GameState \<Rightarrow> real \<times> real \<Rightarrow> int \<Rightarrow> int \<Rightarrow> engine \<Rightarrow> engine" where
  "initLoop pf gs cv n i st =
     (if i < n then initLoop pf gs cv n (i + 1) (createParticle pf gs cv i st) else st)"
  by pat_completeness auto
termination
  by (relation "measure (\<lambda>(pf, gs, cv, n, i, st). nat (n - i))") auto

declare initLoop.simps [simp del]

text \<open>
  \<^verbatim>\<open>Math.floor(maxParticles * (1 + gameState.upgrades.maxParticles * 0.2))\<close>: the
  literal \<^verbatim>\<open>0.2\<close> is the double nearest to one fifth, and the two products and the sum
  are each rounded to a double before the floor is taken.
\<close>

definition actualMaxParticles :: "ParticleAnimationOptions \<Rightarrow> GameState \<Rightarrow> int" where
  "actualMaxParticles options gs =
     \<lfloor>rnd (real_of_int (maxParticlesOf options)
        * rnd (1 + rnd (real_of_int (maxParticles (upgrades gs)) * rnd 0.2)))\<rfloor>"

definition initParticles ::
  "platform \<Rightarrow> ParticleAnimationOptions \<Rightarrow> GameState \<Rightarrow> engine \<Rightarrow> engine" where
  "initParticles pf options gs st =
     (let st1 = st\<lparr>particlesRef := []\<rparr>
      in case canvas pf of
           None \<Rightarrow> st1
         | Some cv \<Rightarrow> initLoop pf gs cv (actualMaxParticles options gs) 0 st1)"

section \<open>Collection event\<close>

function burstLoop :: "platform \<Rightarrow> nat \<Rightarrow> nat \<Rightarrow> engine \<Rightarrow> engine" where
  "burstLoop pf index j st =
     (if j < 10 then
        (let p = particlesRef st ! index;
             (r0, st1) = Math_random pf st;
             (r1, st2) = Math_random pf st1;
             (r2, st3) = Math_random pf st2;
             (r3, st4) = Math_random pf st3;
             (r4, st5) = Math_random pf st4
         in burstLoop pf index (j + 1)
              (st5\<lparr>particlesRef := particlesRef st5 @
                 [\<lparr>px = px p, py = py p,
                   psize = 1 + r0 * 1.5,
                   vx = (r1 - 0.5) * 2,
                   vy = (r2 - 0.5) * 2,
                   color = Rgba 255 215 0 (0.7 + r3 * 0.3),
                   alpha = 0.7 + r4 * 0.3,
                   isTarget = None,
                   isCollector = None,
                   autonomy = 0,
                   behavior = normal,
                   lastDirectionChange = 0\<rparr>]\<rparr>))
      else st)"
  by pat_completeness auto
termination
  by (relation "measure (\<lambda>(pf, index, j, st). 10 - j)") auto

declare burstLoop.simps [simp del]

text \<open>
  \<^verbatim>\<open>particles[index]\<close> past the end is \<^verbatim>\<open>undefined\<close>, and reading its
  \<^verbatim>\<open>isTarget\<close> throws.
\<close>

definition collectTarget :: "platform \<Rightarrow> nat \<Rightarrow> engine \<Rightarrow> error + engine" where
  "collectTarget pf index st =
     (if length (particlesRef st) \<le> index then Inl TypeError
      else if \<not> truthy (isTarget (particlesRef st ! index)) then Inr st
      else
        (let st1 = st\<lparr>particlesRef :=
                    (particlesRef st)[index := (particlesRef st ! index)\<lparr>isTarget := Some False\<rparr>]\<rparr>;
             (now, st2) = Date_now pf st1;
             st3 = st2\<lparr>targetCollectedTimeRef := now\<rparr>;
             st4 = burstLoop pf index 0 st3;
             prev = gameState st4;
             newCurrency = currency prev + 1;
             newScore = score prev + 1
         in Inr (st4\<lparr>gameState := prev\<lparr>currency := newCurrency, score := newScore,
                    highestCurrency := max (highestCurrency prev) newCurrency\<rparr>\<rparr>)))"

section \<open>Upgrade purchase\<close>

definition purchaseUpgrade ::
  "platform \<Rightarrow> ParticleAnimationOptions \<Rightarrow> GameState \<Rightarrow> UpgradeKey \<Rightarrow> int \<Rightarrow> engine \<Rightarrow> engine" where
  "purchaseUpgrade pf options gs upgradeType cost st =
     (let prev = gameState st;
          st1 = st\<lparr>gameState :=
                  (if currency prev < cost then prev
                   else prev\<lparr>currency := currency prev - cost,
                          upgrades := setUpgrade (upgrades prev) upgradeType
                                        (getUpgrade (upgrades prev) upgradeType + 1)\<rparr>)\<rparr>
      in initParticles pf options gs st1)"

section \<open>Persistence\<close>

text \<open>
  \<^verbatim>\<open>JSON.stringify\<close> and \<^verbatim>\<open>JSON.parse\<close> belong to the platform. A stored string is
  represented by the JSON value it denotes (\<open>Text\<close>), or by \<open>Unparseable\<close> when
  \<^verbatim>\<open>JSON.parse\<close> would throw on it (the empty string is one of these). \<open>writable\<close> is
  false when \<^verbatim>\<open>setItem\<close> throws (quota exceeded, storage disabled).
\<close>

datatype json = JNull | JBool bool | JNumber int | JString string | JObject "(string \<times> json) list"

datatype stored = Text json | Unparseable

record localStorage =
  items :: "string \<rightharpoonup> stored"
  writable :: bool

text \<open>What \<^verbatim>\<open>JSON.stringify(gameState)\<close> denotes: the own properties, in creation order.\<close>

definition upgradesToJson :: "GameUpgrades \<Rightarrow> json" where
  "upgradesToJson u =
     JObject [(''maxParticles'', JNumber (maxParticles u)),
              (''particleSize'', JNumber (particleSize u)),
              (''interactionRadius'', JNumber (interactionRadius u)),
              (''targetSpawnRate'', JNumber (targetSpawnRate u)),
              (''autoCollectors'', JNumber (autoCollectors u)),
              (''particleSpeed'', JNumber (particleSpeed u)),
              (''autonomyLevel'', JNumber (autonomyLevel u))]"

definition gameStateToJson :: "GameState \<Rightarrow> json" where
  "gameStateToJson g =
     JObject [(''currency'', JNumber (currency g)),
              (''score'', JNumber (score g)),
              (''level'', JNumber (level g)),
              (''upgrades'', upgradesToJson (upgrades g)),
              (''lastUpdate'', JNumber (lastUpdate g)),
              (''gameStarted'', JBool (gameStarted g)),
              (''highestCurrency'', JNumber (highestCurrency g))]"

text \<open>
  \<^verbatim>\<open>setGameState(parsedState)\<close> stores the parsed value unchecked, and the hook then
  reads it at the type \<^verbatim>\<open>GameState\<close>. The functions below are those reads; they
  give \<open>None\<close> for a value that does not have the shape of the type.
\<close>

definition field :: "json \<Rightarrow> string \<Rightarrow> json option" where
  "field j k = (case j of JObject kvs \<Rightarrow> map_of kvs k | _ \<Rightarrow> None)"

definition numberField :: "json \<Rightarrow> string \<Rightarrow> int option" where
  "numberField j k = (case field j k of Some (JNumber n) \<Rightarrow> Some n | _ \<Rightarrow> None)"

definition boolField :: "json \<Rightarrow> string \<Rightarrow> bool option" where
  "boolField j k = (case field j k of Some (JBool b) \<Rightarrow> Some b | _ \<Rightarrow> None)"

definition upgradesOfJson :: "json \<Rightarrow> GameUpgrades option" where
  "upgradesOfJson j =
     (case (numberField j ''maxParticles'', numberField j ''particleSize'',
            numberField j ''interactionRadius'', numberField j ''targetSpawnRate'',
            numberField j ''autoCollectors'', numberField j ''particleSpeed'',
            numberField j ''autonomyLevel'') of
        (Some a, Some b, Some c, Some d, Some e, Some f, Some g) \<Rightarrow>
          Some \<lparr>maxParticles = a, particleSize = b, interactionRadius = c,
                targetSpawnRate = d, autoCollectors = e, particleSpeed = f,
                autonomyLevel = g\<rparr>
      | _ \<Rightarrow> None)"

definition gameStateOfJson :: "json \<Rightarrow> GameState option" where
  "gameStateOfJson j =
     (case (numberField j ''currency'', numberField j ''score'', numberField j ''level'',
            Option.bind (field j ''upgrades'') upgradesOfJson,
            numberField j ''lastUpdate'', boolField j ''gameStarted'',
            numberField j ''highestCurrency'') of
        (Some c, Some s, Some l, Some u, Some t, Some b, Some h) \<Rightarrow>
          Some \<lparr>currency = c, score = s, level = l, upgrades = u, lastUpdate = t,
                gameStarted = b, highestCurrency = h\<rparr>
      | _ \<Rightarrow> None)"

text \<open>
  \<open>saveGameState\<close> writes the game state \<open>gs\<close> its closure captured; a failing write is
  caught and logged, and leaves the storage as it was.
\<close>

definition saveGameState :: "GameState \<Rightarrow> localStorage \<Rightarrow> localStorage" where
  "saveGameState gs ls =
     (if writable ls
      then ls\<lparr>items := (items ls)(''particleGame'' \<mapsto> Text (gameStateToJson gs))\<rparr>
      else ls)"

text \<open>
  \<open>loadGameState\<close> replaces the game state by the parsed value when the key is present
  and parses; an absent key and a parse error (caught and logged) leave the state alone.
  The result is \<open>None\<close> when the parsed value is not of the shape of \<^verbatim>\<open>GameState\<close>.
\<close>

definition loadGameState :: "localStorage \<Rightarrow> engine \<Rightarrow> engine option" where
  "loadGameState ls st =
     (case items ls ''particleGame'' of
        None \<Rightarrow> Some st
      | Some Unparseable \<Rightarrow> Some st
      | Some (Text parsedState) \<Rightarrow>
          (case gameStateOfJson parsedState of
             None \<Rightarrow> None
           | Some g \<Rightarrow> Some (st\<lparr>gameState := g\<rparr>)))"

section \<open>Upgrade costs (ParticleCanvas.tsx)\<close>

text \<open>The two tables of \<^verbatim>\<open>getUpgradeCost\<close>; a literal denotes the double nearest to it.\<close>

definition baseCosts :: "(string \<times> real) list" where
  "baseCosts =
     [(''maxParticles'', 5),
      (''particleSize'', 10),
      (''interactionRadius'', 8),
      (''targetSpawnRate'', 15),
      (''autoCollectors'', 25),
      (''particleSpeed'', 12),
      (''autonomyLevel'', 20)]"

definition scaleFactor :: "(string \<times> real) list" where
  "scaleFactor =
     [(''maxParticles'', rnd 1.5),
      (''particleSize'', rnd 1.8),
      (''interactionRadius'', rnd 1.6),
      (''targetSpawnRate'', rnd 1.7),
      (''autoCollectors'', rnd 2.5),
      (''particleSpeed'', rnd 1.9),
      (''autonomyLevel'', rnd 2.2)]"

text \<open>
  \<^verbatim>\<open>table[key] || d\<close>: the default is taken for a missing key and for a falsy (zero)
  entry. The keys every JavaScript object inherits (\<^verbatim>\<open>constructor\<close>,
  \<^verbatim>\<open>toString\<close> and the like) are not modelled.
\<close>

definition lookup_or :: "(string \<times> real) list \<Rightarrow> string \<Rightarrow> real \<Rightarrow> real" where
  "lookup_or table k d =
     (case map_of table k of
        None \<Rightarrow> d
      | Some v \<Rightarrow> if v = 0 then d else v)"

text \<open>
  \<^verbatim>\<open>Math.pow\<close> belongs to the platform, and the language standard leaves its result
  implementation-approximated. \<open>getUpgradeCost\<close> therefore takes the platform's power
  function as the parameter \<open>pow\<close> (its arguments are the factor and the level, an
  integer); the product and the floor are the machine's.
\<close>

definition getUpgradeCost ::
  "(real \<Rightarrow> int \<Rightarrow> number) \<Rightarrow> string \<Rightarrow> int \<Rightarrow> number" where
  "getUpgradeCost pow upgradeType currentLevel =
     (let baseCost = lookup_or baseCosts upgradeType 10;
          factor = lookup_or scaleFactor upgradeType (rnd 1.5)
      in Math_floor (number_times (Finite baseCost) (pow factor currentLevel)))"

text \<open>The ids of the upgrades the shop offers (\<^verbatim>\<open>renderUpgradeOptions\<close>).\<close>

definition upgradeTypes :: "string list" where
  "upgradeTypes =
     [''maxParticles'', ''particleSize'', ''interactionRadius'', ''targetSpawnRate'',
      ''autoCollectors'', ''particleSpeed'', ''autonomyLevel'']"

text \<open>
  What is asked of a power function. At a base \<open>b \<ge> 1\<close> and an integer exponent
  \<open>e \<ge> 0\<close> its result \<open>approximates\<close> the power \<open>b ^ e\<close>: a finite result is within the
  relative distance \<open>2 ^ - 52\<close> of it (one unit in the last place), and the result is
  \<^verbatim>\<open>Infinity\<close> only if the power is that close to \<open>2 ^ 1024\<close> or beyond it.
  \<open>correctPow\<close> is the power function that rounds the exact power to the nearest double
  (\<^verbatim>\<open>Math.pow(0, e)\<close> is \<^verbatim>\<open>Infinity\<close> at a negative \<open>e\<close>).
\<close>

definition approximates :: "number \<Rightarrow> real \<Rightarrow> bool" where
  "approximates r v =
     (case r of
        Finite p \<Rightarrow> \<bar>p - v\<bar> \<le> v / 2 ^ 52
      | PosInfinity \<Rightarrow> 2 ^ 1024 \<le> v * (1 + 1 / 2 ^ 52)
      | NegInfinity \<Rightarrow> False
      | NaN \<Rightarrow> False)"

definition pow_accurate :: "(real \<Rightarrow> int \<Rightarrow> number) \<Rightarrow> bool" where
  "pow_accurate pow = (\<forall>b e. 1 \<le> b \<and> 0 \<le> e \<longrightarrow> approximates (pow b e) (b ^ nat e))"

definition correctPow :: "real \<Rightarrow> int \<Rightarrow> number" where
  "correctPow b e = (if b = 0 \<and> e < 0 then PosInfinity else round_double (b powi e))"

text \<open>
  The closed form \<open>baseCost * scaleFactor ^ L\<close> of a price before the floor, in exact
  arithmetic over the entries of the two tables.
\<close>

definition costFormula :: "string \<Rightarrow> int \<Rightarrow> real" where
  "costFormula upgradeType L =
     lookup_or baseCosts upgradeType 10 * lookup_or scaleFactor upgradeType (rnd 1.5) ^ nat L"

section \<open>Per-frame simulation step\<close>

text \<open>
  \<^verbatim>\<open>const p = particles[i]\<close> is a reference into the array: an assignment to a field of
  \<open>p\<close> is an update of the array at \<open>i\<close>.
\<close>

definition updateAt :: "nat \<Rightarrow> (Particle \<Rightarrow> Particle) \<Rightarrow> engine \<Rightarrow> engine" where
  "updateAt i f st = st\<lparr>particlesRef := (particlesRef st)[i := f (particlesRef st ! i)]\<rparr>"

text \<open>\<^verbatim>\<open>Math.sqrt(dx * dx + dy * dy)\<close>.\<close>

definition distance :: "real \<Rightarrow> real \<Rightarrow> real" where
  "distance dx dy = sqrt (dx * dx + dy * dy)"

text \<open>The effective pointer sample: the canvas-relative one unless its \<open>x\<close> is 0.\<close>

definition effectiveMousePos :: "platform \<Rightarrow> engine \<Rightarrow> (real \<times> real) option" where
  "effectiveMousePos pf st =
     (if fst (scaledMousePosRef st) \<noteq> 0 then Some (scaledMousePosRef st)
      else map_option (\<lambda>m. (mouse_x m, mouse_y m)) (mousePositionRef pf))"

definition interactionCheck ::
  "platform \<Rightarrow> GameState \<Rightarrow> (real \<times> real) option \<Rightarrow> engine \<Rightarrow> engine" where
  "interactionCheck pf gs mousePos st =
     (case mousePos of
        None \<Rightarrow> st
      | Some (mx, my) \<Rightarrow>
          if mx \<noteq> 0 \<and> my \<noteq> 0 then
            (let st1 = (if interactionStartTimeRef st = 0
                        then (let (now, s) = Date_now pf st in s\<lparr>interactionStartTimeRef := now\<rparr>)
                        else st);
                 st2 = (if \<not> gameStarted gs
                        then st1\<lparr>gameState := (gameState st1)\<lparr>gameStarted := True\<rparr>\<rparr>
                        else st1);
                 (now1, st3) = Date_now pf st2
             in if now1 - interactionStartTimeRef st3 > 1000 then
                  (let st4 = st3\<lparr>showScore := True\<rparr>;
                       (now2, st5) = Date_now pf st4
                   in if now2 - interactionStartTimeRef st5 > 2000
                      then st5\<lparr>showHint := False\<rparr> else st5)
                else st3)
          else st)"

text \<open>
  Target replenishment. \<^verbatim>\<open>particles[randomIndex]\<close> is \<^verbatim>\<open>undefined\<close> when the index
  is not one of the array (an empty array gives index 0), and reading its flag throws.
\<close>

definition spawnTarget ::
  "platform \<Rightarrow> ParticleAnimationOptions \<Rightarrow> GameState \<Rightarrow> engine \<Rightarrow> error + engine" where
  "spawnTarget pf options gs st =
     (let particles = particlesRef st;
          targetCount = length (filter (\<lambda>p. truthy (isTarget p)) particles);
          adjustedSpawnRate =
            targetSpawnRateOf options * (1 + real_of_int (targetSpawnRate (upgrades gs)) * 0.2)
      in if targetCount < 3 then
           (let (r, st1) = Math_random pf st
            in if r < adjustedSpawnRate then
                 (let (r2, st2) = Math_random pf st1;
                      randomIndex = \<lfloor>r2 * real (length particles)\<rfloor>
                  in if randomIndex < 0 \<or> int (length particles) \<le> randomIndex then Inl TypeError
                     else if \<not> truthy (isTarget (particles ! nat randomIndex))
                           \<and> \<not> truthy (isCollector (particles ! nat randomIndex))
                     then Inr (updateAt (nat randomIndex) (\<lambda>p. p\<lparr>isTarget := Some True\<rparr>) st2)
                     else Inr st2)
               else Inr st1)
         else Inr st)"

subsection \<open>Autonomous steering\<close>

text \<open>The search for the closest target; \<open>None\<close> is the initial \<^verbatim>\<open>Infinity\<close>.\<close>

fun closestLoop :: "Particle \<Rightarrow> Particle list \<Rightarrow> Particle \<times> real option \<Rightarrow> Particle \<times> real option" where
  "closestLoop p [] acc = acc"
| "closestLoop p (target # rest) (closestTarget, closestDist) =
     (let dx = px target - px p;
          dy = py target - py p;
          dist = distance dx dy
      in if (case closestDist of None \<Rightarrow> True | Some d \<Rightarrow> dist < d)
         then closestLoop p rest (target, Some dist)
         else closestLoop p rest (closestTarget, closestDist))"

definition findClosest :: "Particle \<Rightarrow> Particle list \<Rightarrow> Particle" where
  "findClosest p targets = fst (closestLoop p targets (hd targets, None))"

definition moveToward :: "Particle \<Rightarrow> real \<Rightarrow> Particle \<Rightarrow> Particle" where
  "moveToward closestTarget k p =
     (let dx = px closestTarget - px p;
          dy = py closestTarget - py p;
          dist = distance dx dy
      in if dist > 0
         then p\<lparr>vx := vx p + (dx / dist) * k, vy := vy p + (dy / dist) * k\<rparr>
         else p)"

text \<open>\<^verbatim>\<open>p.vx += (Math.random() - 0.5) * k; p.vy += (Math.random() - 0.5) * k\<close>.\<close>

definition randomNudge :: "platform \<Rightarrow> real \<Rightarrow> nat \<Rightarrow> engine \<Rightarrow> engine" where
  "randomNudge pf k i st =
     (let (r0, st1) = Math_random pf st;
          st2 = updateAt i (\<lambda>p. p\<lparr>vx := vx p + (r0 - 0.5) * k\<rparr>) st1;
          (r1, st3) = Math_random pf st2
      in updateAt i (\<lambda>p. p\<lparr>vy := vy p + (r1 - 0.5) * k\<rparr>) st3)"

definition steer :: "platform \<Rightarrow> GameState \<Rightarrow> nat \<Rightarrow> engine \<Rightarrow> engine" where
  "steer pf gs i st =
     (let p = particlesRef st ! i;
          speed = real_of_int (particleSpeed (upgrades gs));
          targets = filter (\<lambda>t. truthy (isTarget t)) (particlesRef st)
      in case behavior p of
           seeker \<Rightarrow>
             if length targets > 0
             then updateAt i (moveToward (findClosest p targets) (autonomy p * 0.05 * speed)) st
             else st
         | avoider \<Rightarrow> randomNudge pf (autonomy p * 0.1 * speed) i st
         | collector \<Rightarrow>
             if length targets > 0
             then updateAt i (moveToward (findClosest p targets) (0.2 * speed)) st
             else randomNudge pf (0.05 * speed) i st
         | normal \<Rightarrow> randomNudge pf (autonomy p * 0.05 * speed) i st)"

definition autonomousStep :: "platform \<Rightarrow> GameState \<Rightarrow> nat \<Rightarrow> engine \<Rightarrow> engine" where
  "autonomousStep pf gs i st =
     (if autonomy (particlesRef st ! i) > 0 then
        (let (now, st1) = Date_now pf st;
             (r, st2) = Math_random pf st1
         in if real_of_int (now - lastDirectionChange (particlesRef st ! i)) > 1000 + r * 2000 then
              (let (now2, st3) = Date_now pf st2;
                   st4 = updateAt i (\<lambda>p. p\<lparr>lastDirectionChange := now2\<rparr>) st3
               in steer pf gs i st4)
            else st2)
      else st)"

subsection \<open>Collection by collectors and by the pointer\<close>

function collectorScan :: "platform \<Rightarrow> nat \<Rightarrow> nat \<Rightarrow> engine \<Rightarrow> error + engine" where
  "collectorScan pf i j st =
     (if j < length (particlesRef st) then
        (if truthy (isTarget (particlesRef st ! j))
            \<and> distance (px (particlesRef st ! j) - px (particlesRef st ! i))
                 (py (particlesRef st ! j) - py (particlesRef st ! i)) < 30
         then collectTarget pf j st
         else collectorScan pf i (j + 1) st)
      else Inr st)"
  by pat_completeness auto
termination
  by (relation "measure (\<lambda>(pf, i, j, st). length (particlesRef st) - j)") auto

declare collectorScan.simps [simp del]

definition mouseStep ::
  "platform \<Rightarrow> ParticleAnimationOptions \<Rightarrow> GameState \<Rightarrow> (real \<times> real) option \<Rightarrow> real
     \<Rightarrow> nat \<Rightarrow> engine \<Rightarrow> error + engine" where
  "mouseStep pf options gs mousePos normalizedDelta i st =
     (case mousePos of
        None \<Rightarrow> Inr st
      | Some (mx, my) \<Rightarrow>
          (let dx = px (particlesRef st ! i) - mx;
               dy = py (particlesRef st ! i) - my;
               dist = distance dx dy
           in case (if truthy (isTarget (particlesRef st ! i)) \<and> dist < 30
                    then collectTarget pf i st else Inr st) of
                Inl e \<Rightarrow> Inl e
              | Inr st1 \<Rightarrow>
                  (let actualInteractionRadius =
                         interactionRadiusOf options
                           * (1 + real_of_int (interactionRadius (upgrades gs)) * 0.1)
                   in if dist < actualInteractionRadius then
                        (let force = (actualInteractionRadius - dist) / actualInteractionRadius;
                             directionX = (if dist = 0 then 0 else dx / dist);
                             directionY = (if dist = 0 then 0 else dy / dist)
                         in Inr (updateAt i
                              (\<lambda>p. p\<lparr>vx := vx p + directionX * force * repulsionStrengthOf options
                                               * normalizedDelta,
                                       vy := vy p + directionY * force * repulsionStrengthOf options
                                               * normalizedDelta\<rparr>) st1))
                      else Inr st1)))"

subsection \<open>Integration and containment\<close>

definition integrate :: "real \<Rightarrow> Particle \<Rightarrow> Particle" where
  "integrate normalizedDelta p =
     (let p1 = p\<lparr>px := px p + vx p * normalizedDelta\<rparr>;
          p2 = p1\<lparr>py := py p1 + vy p1 * normalizedDelta\<rparr>;
          p3 = p2\<lparr>vx := vx p2 * 0.98\<rparr>
      in p3\<lparr>vy := vy p3 * 0.98\<rparr>)"

definition contain :: "real \<times> real \<Rightarrow> Particle \<Rightarrow> Particle" where
  "contain canvasSize p =
     (let p1 = (if px p < 0 then p\<lparr>px := 0, vx := vx p * (- 0.7)\<rparr>
                else if px p > fst canvasSize then p\<lparr>px := fst canvasSize, vx := vx p * (- 0.7)\<rparr>
                else p)
      in if py p1 < 0 then p1\<lparr>py := 0, vy := vy p1 * (- 0.7)\<rparr>
         else if py p1 > snd canvasSize then p1\<lparr>py := snd canvasSize, vy := vy p1 * (- 0.7)\<rparr>
         else p1)"

text \<open>
  Drawing changes nothing of the engine, but it reads the clock for the pulse of a target
  and, failing that, of a collector.
\<close>

definition drawParticle :: "platform \<Rightarrow> nat \<Rightarrow> engine \<Rightarrow> engine" where
  "drawParticle pf i st =
     (if truthy (isTarget (particlesRef st ! i)) then snd (Date_now pf st)
      else if truthy (isCollector (particlesRef st ! i)) then snd (Date_now pf st)
      else st)"

subsection \<open>The loop over the particles\<close>

definition stepParticle ::
  "platform \<Rightarrow> ParticleAnimationOptions \<Rightarrow> GameState \<Rightarrow> (real \<times> real) option \<Rightarrow> real
     \<Rightarrow> real \<times> real \<Rightarrow> nat \<Rightarrow> engine \<Rightarrow> error + engine" where
  "stepParticle pf options gs mousePos normalizedDelta canvasSize i st =
     (let st1 = autonomousStep pf gs i st
      in case (if truthy (isCollector (particlesRef st1 ! i))
               then collectorScan pf i 0 st1 else Inr st1) of
           Inl e \<Rightarrow> Inl e
         | Inr st2 \<Rightarrow>
             (case mouseStep pf options gs mousePos normalizedDelta i st2 of
                Inl e \<Rightarrow> Inl e
              | Inr st3 \<Rightarrow>
                  Inr (drawParticle pf i
                        (updateAt i (contain canvasSize)
                          (updateAt i (integrate normalizedDelta) st3)))))"

subsection \<open>Facts about the collection event\<close>

text \<open>The loop over the particles calls \<open>collectTarget\<close>; its termination rests on these.\<close>

lemma burstLoop_done: "10 \<le> j \<Longrightarrow> burstLoop pf index j st = st"
  by (subst burstLoop.simps) simp

lemma burstLoop_step:
  "j < 10 \<Longrightarrow> burstLoop pf index j st =
     burstLoop pf index (Suc j)
       (st\<lparr>randomCalls := randomCalls st + 5,
           particlesRef := particlesRef st @
             [\<lparr>px = px (particlesRef st ! index), py = py (particlesRef st ! index),
               psize = 1 + randomValues pf (randomCalls st) * 1.5,
               vx = (randomValues pf (randomCalls st + 1) - 0.5) * 2,
               vy = (randomValues pf (randomCalls st + 2) - 0.5) * 2,
               color = Rgba 255 215 0 (0.7 + randomValues pf (randomCalls st + 3) * 0.3),
               alpha = 0.7 + randomValues pf (randomCalls st + 4) * 0.3,
               isTarget = None, isCollector = None, autonomy = 0, behavior = normal,
               lastDirectionChange = 0\<rparr>]\<rparr>)"
  by (subst burstLoop.simps) (simp add: Math_random_def Let_def eval_nat_numeral)

lemma burstLoop_length:
  "length (particlesRef (burstLoop pf index j st)) = length (particlesRef st) + (10 - j)"
proof (induction "10 - j" arbitrary: j st)
  case 0
  then show ?case by (simp add: burstLoop_done)
next
  case (Suc m)
  then have lt: "j < 10" and m: "m = 10 - Suc j" by simp_all
  show ?case
    using Suc.hyps(1) [OF m] lt by (simp add: burstLoop_step)
qed

lemma burstLoop_old:
  "take (length (particlesRef st)) (particlesRef (burstLoop pf index j st)) = particlesRef st"
proof (induction "10 - j" arbitrary: j st)
  case 0
  then show ?case by (simp add: burstLoop_done)
next
  case (Suc m)
  then have lt: "j < 10" and m: "m = 10 - Suc j" by simp_all
  let ?s = "st\<lparr>randomCalls := randomCalls st + 5,
           particlesRef := particlesRef st @
             [\<lparr>px = px (particlesRef st ! index), py = py (particlesRef st ! index),
               psize = 1 + randomValues pf (randomCalls st) * 1.5,
               vx = (randomValues pf (randomCalls st + 1) - 0.5) * 2,
               vy = (randomValues pf (randomCalls st + 2) - 0.5) * 2,
               color = Rgba 255 215 0 (0.7 + randomValues pf (randomCalls st + 3) * 0.3),
               alpha = 0.7 + randomValues pf (randomCalls st + 4) * 0.3,
               isTarget = None, isCollector = None, autonomy = 0, behavior = normal,
               lastDirectionChange = 0\<rparr>]\<rparr>"
  let ?r = "particlesRef (burstLoop pf index (Suc j) ?s)"
  have ih: "take (length (particlesRef ?s)) ?r = particlesRef ?s"
    using Suc.hyps(1) [OF m] .
  have "take (length (particlesRef st)) ?r
      = take (length (particlesRef st)) (take (length (particlesRef ?s)) ?r)"
    by (simp add: min_def)
  also have "\<dots> = particlesRef st" by (simp only: ih) simp
  finally show ?case using lt by (simp only: burstLoop_step [OF lt])
qed

lemma burstLoop_rest:
  "gameState (burstLoop pf index j st) = gameState st
   \<and> showScore (burstLoop pf index j st) = showScore st
   \<and> showHint (burstLoop pf index j st) = showHint st
   \<and> canvasSizeRef (burstLoop pf index j st) = canvasSizeRef st
   \<and> targetCollectedTimeRef (burstLoop pf index j st) = targetCollectedTimeRef st
   \<and> interactionStartTimeRef (burstLoop pf index j st) = interactionStartTimeRef st
   \<and> scaledMousePosRef (burstLoop pf index j st) = scaledMousePosRef st
   \<and> clockCalls (burstLoop pf index j st) = clockCalls st
   \<and> randomCalls (burstLoop pf index j st) = randomCalls st + 5 * (10 - j)"
proof (induction "10 - j" arbitrary: j st)
  case 0
  then show ?case by (simp add: burstLoop_done)
next
  case (Suc m)
  then have lt: "j < 10" and m: "m = 10 - Suc j" by simp_all
  have "10 - j = Suc (10 - Suc j)" using lt by simp
  then show ?case
    using Suc.hyps(1) [OF m] by (simp add: burstLoop_step [OF lt])
qed

lemma burstLoop_new:
  "index < length (particlesRef st) \<Longrightarrow> k < 10 - j \<Longrightarrow>
   (let b = particlesRef (burstLoop pf index j st) ! (length (particlesRef st) + k)
    in px b = px (particlesRef st ! index) \<and> py b = py (particlesRef st ! index)
       \<and> isTarget b = None \<and> isCollector b = None \<and> autonomy b = 0
       \<and> behavior b = normal \<and> lastDirectionChange b = 0)"
proof (induction "10 - j" arbitrary: j st k)
  case 0
  then show ?case by simp
next
  case (Suc m)
  then have lt: "j < 10" and m: "m = 10 - Suc j" by simp_all
  let ?s = "st\<lparr>randomCalls := randomCalls st + 5,
           particlesRef := particlesRef st @
             [\<lparr>px = px (particlesRef st ! index), py = py (particlesRef st ! index),
               psize = 1 + randomValues pf (randomCalls st) * 1.5,
               vx = (randomValues pf (randomCalls st + 1) - 0.5) * 2,
               vy = (randomValues pf (randomCalls st + 2) - 0.5) * 2,
               color = Rgba 255 215 0 (0.7 + randomValues pf (randomCalls st + 3) * 0.3),
               alpha = 0.7 + randomValues pf (randomCalls st + 4) * 0.3,
               isTarget = None, isCollector = None, autonomy = 0, behavior = normal,
               lastDirectionChange = 0\<rparr>]\<rparr>"
  let ?r = "particlesRef (burstLoop pf index (Suc j) ?s)"
  have idx: "index < length (particlesRef ?s)" using Suc.prems by simp
  have same: "particlesRef ?s ! index = particlesRef st ! index"
    using Suc.prems by (simp add: nth_append)
  show ?case
  proof (cases k)
    case 0
    have "?r ! length (particlesRef st) = take (length (particlesRef ?s)) ?r ! length (particlesRef st)"
      by simp
    also have "\<dots> = particlesRef ?s ! length (particlesRef st)"
      by (simp only: burstLoop_old)
    finally show ?thesis
      using 0 by (simp add: burstLoop_step [OF lt] Let_def)
  next
    case (Suc k')
    have k': "k' < 10 - Suc j" using Suc.prems Suc by simp
    have shift: "length (particlesRef st) + k = length (particlesRef ?s) + k'"
      using Suc by simp
    show ?thesis
      using Suc.hyps(1) [OF m idx k'] 
      by (simp only: burstLoop_step [OF lt] shift same Let_def)
  qed
qed


lemma collectTarget_target:
  assumes "index < length (particlesRef st)" and "truthy (isTarget (particlesRef st ! index))"
  shows "collectTarget pf index st =
    Inr ((burstLoop pf index 0
           (st\<lparr>particlesRef := (particlesRef st)[index := (particlesRef st ! index)\<lparr>isTarget := Some False\<rparr>],
               clockCalls := Suc (clockCalls st),
               targetCollectedTimeRef := clockValues pf (clockCalls st)\<rparr>))
         \<lparr>gameState := (gameState st)\<lparr>currency := currency (gameState st) + 1,
             score := score (gameState st) + 1,
             highestCurrency := max (highestCurrency (gameState st)) (currency (gameState st) + 1)\<rparr>\<rparr>)"
  using assms by (simp add: collectTarget_def Date_now_def Let_def burstLoop_rest)

subsection \<open>Termination of the loop over the particles\<close>

text \<open>
  Termination of the loop over the particles: the array grows by 10 whenever a target is
  collected, and nothing in the loop makes a target. So ten times the number of targets
  plus the length of the array stays the same.
\<close>

definition targetCount :: "engine \<Rightarrow> nat" where
  "targetCount st = length (filter (\<lambda>p. truthy (isTarget p)) (particlesRef st))"

definition potential :: "engine \<Rightarrow> nat" where
  "potential st = 10 * targetCount st + length (particlesRef st)"

lemma filter_update_same:
  "P y = P (xs ! i) \<Longrightarrow> length (filter P (xs[i := y])) = length (filter P xs)"
proof (induction xs arbitrary: i)
  case Nil
  then show ?case by simp
next
  case (Cons x xs)
  then show ?case by (cases i) simp_all
qed

lemma filter_update_clear:
  "i < length xs \<Longrightarrow> P (xs ! i) \<Longrightarrow> \<not> P y \<Longrightarrow>
   Suc (length (filter P (xs[i := y]))) = length (filter P xs)"
proof (induction xs arbitrary: i)
  case Nil
  then show ?case by simp
next
  case (Cons x xs)
  then show ?case by (cases i) simp_all
qed

lemma potential_updateAt:
  "isTarget (f (particlesRef st ! i)) = isTarget (particlesRef st ! i) \<Longrightarrow>
   potential (updateAt i f st) = potential st"
  by (simp add: potential_def targetCount_def updateAt_def filter_update_same)

lemma length_updateAt [simp]: "length (particlesRef (updateAt i f st)) = length (particlesRef st)"
  by (simp add: updateAt_def)

lemma potential_random [simp]: "potential (snd (Math_random pf st)) = potential st"
  by (simp add: potential_def targetCount_def Math_random_def)

lemma potential_clock [simp]: "potential (snd (Date_now pf st)) = potential st"
  by (simp add: potential_def targetCount_def Date_now_def)

lemma particles_random [simp]: "particlesRef (snd (Math_random pf st)) = particlesRef st"
  by (simp add: Math_random_def)

lemma particles_clock [simp]: "particlesRef (snd (Date_now pf st)) = particlesRef st"
  by (simp add: Date_now_def)

lemma burstLoop_bursts:
  assumes "index < length (particlesRef st)"
  shows "list_all (\<lambda>b. px b = px (particlesRef st ! index) \<and> py b = py (particlesRef st ! index)
                     \<and> isTarget b = None \<and> isCollector b = None \<and> autonomy b = 0
                     \<and> behavior b = normal \<and> lastDirectionChange b = 0)
          (drop (length (particlesRef st)) (particlesRef (burstLoop pf index j st)))"
  unfolding list_all_length
proof (intro allI impI)
  fix n
  let ?r = "particlesRef (burstLoop pf index j st)"
  assume "n < length (drop (length (particlesRef st)) ?r)"
  then have n: "n < 10 - j" by (simp add: burstLoop_length)
  then have "length (particlesRef st) + n < length ?r" by (simp add: burstLoop_length)
  then have nth: "drop (length (particlesRef st)) ?r ! n = ?r ! (length (particlesRef st) + n)"
    by simp
  show "px (drop (length (particlesRef st)) ?r ! n) = px (particlesRef st ! index) \<and>
        py (drop (length (particlesRef st)) ?r ! n) = py (particlesRef st ! index) \<and>
        isTarget (drop (length (particlesRef st)) ?r ! n) = None \<and>
        isCollector (drop (length (particlesRef st)) ?r ! n) = None \<and>
        autonomy (drop (length (particlesRef st)) ?r ! n) = 0 \<and>
        behavior (drop (length (particlesRef st)) ?r ! n) = normal \<and>
        lastDirectionChange (drop (length (particlesRef st)) ?r ! n) = 0"
    using burstLoop_new [OF assms n, of pf] by (simp only: nth) (simp add: Let_def)
qed

lemma burstLoop_targets:
  assumes "index < length (particlesRef st)"
  shows "filter (\<lambda>p. truthy (isTarget p)) (particlesRef (burstLoop pf index j st))
       = filter (\<lambda>p. truthy (isTarget p)) (particlesRef st)"
proof -
  let ?r = "particlesRef (burstLoop pf index j st)"
  let ?n = "length (particlesRef st)"
  have "list_all (\<lambda>b. \<not> truthy (isTarget b)) (drop ?n ?r)"
    using burstLoop_bursts [OF assms, of pf j]
    by (rule list.pred_mono_strong) (simp add: truthy_def)
  then have none: "filter (\<lambda>p. truthy (isTarget p)) (drop ?n ?r) = []"
    by (simp add: list_all_iff filter_empty_conv)
  have "?r = take ?n ?r @ drop ?n ?r" by simp
  then have "?r = particlesRef st @ drop ?n ?r" by (simp only: burstLoop_old)
  then have "filter (\<lambda>p. truthy (isTarget p)) ?r
      = filter (\<lambda>p. truthy (isTarget p)) (particlesRef st @ drop ?n ?r)"
    by simp
  then show ?thesis by (simp add: none)
qed

lemma potential_collectTarget:
  assumes "collectTarget pf index st = Inr st'"
  shows "potential st' = potential st"
proof (cases "index < length (particlesRef st) \<and> truthy (isTarget (particlesRef st ! index))")
  case False
  with assms show ?thesis by (auto simp: collectTarget_def split: if_splits)
next
  case True
  then have idx: "index < length (particlesRef st)"
    and tgt: "truthy (isTarget (particlesRef st ! index))" by simp_all
  let ?ps = "(particlesRef st)[index := (particlesRef st ! index)\<lparr>isTarget := Some False\<rparr>]"
  let ?s1 = "st\<lparr>particlesRef := ?ps, clockCalls := Suc (clockCalls st),
               targetCollectedTimeRef := clockValues pf (clockCalls st)\<rparr>"
  let ?b = "burstLoop pf index 0 ?s1"
  have st': "particlesRef st' = particlesRef ?b"
    using assms collectTarget_target [OF idx tgt, of pf] by auto
  have idx1: "index < length (particlesRef ?s1)" using idx by simp
  have t: "filter (\<lambda>p. truthy (isTarget p)) (particlesRef ?b) = filter (\<lambda>p. truthy (isTarget p)) ?ps"
    using burstLoop_targets [OF idx1, of pf 0] by simp
  have c: "Suc (length (filter (\<lambda>p. truthy (isTarget p)) ?ps))
      = length (filter (\<lambda>p. truthy (isTarget p)) (particlesRef st))"
    using idx tgt by (intro filter_update_clear) (simp_all add: truthy_def)
  have l: "length (particlesRef ?b) = length (particlesRef st) + 10"
    by (simp add: burstLoop_length)
  show ?thesis
    using c by (simp add: potential_def targetCount_def st' t l)
qed

lemma length_collectTarget:
  "collectTarget pf index st = Inr st' \<Longrightarrow> length (particlesRef st) \<le> length (particlesRef st')"
  by (auto simp: collectTarget_def Let_def Date_now_def burstLoop_length split: if_splits)

lemma potential_randomNudge [simp]: "potential (randomNudge pf k i st) = potential st"
  by (simp add: randomNudge_def Let_def split_def potential_updateAt)

lemma isTarget_moveToward [simp]: "isTarget (moveToward c k p) = isTarget p"
  by (simp add: moveToward_def Let_def)

lemma potential_steer [simp]: "potential (steer pf gs i st) = potential st"
  by (simp add: steer_def Let_def potential_updateAt split: ParticleBehavior.splits)

lemma potential_autonomousStep [simp]: "potential (autonomousStep pf gs i st) = potential st"
  by (simp add: autonomousStep_def Let_def split_def potential_updateAt)

lemma potential_collectorScan:
  "collectorScan pf i j st = Inr st' \<Longrightarrow> potential st' = potential st"
proof (induction pf i j st rule: collectorScan.induct)
  case (1 pf i j st)
  show ?case
  proof (cases "j < length (particlesRef st)")
    case False
    with "1.prems" show ?thesis by (simp add: collectorScan.simps)
  next
    case True
    show ?thesis
    proof (cases "truthy (isTarget (particlesRef st ! j))
            \<and> distance (px (particlesRef st ! j) - px (particlesRef st ! i))
                 (py (particlesRef st ! j) - py (particlesRef st ! i)) < 30")
      case hit: True
      with True "1.prems" have "collectTarget pf j st = Inr st'"
        by (simp add: collectorScan.simps)
      then show ?thesis by (rule potential_collectTarget)
    next
      case miss: False
      with True "1.prems" have "collectorScan pf i (j + 1) st = Inr st'"
        by (subst (asm) collectorScan.simps) auto
      with "1.IH" [OF True miss] show ?thesis by simp
    qed
  qed
qed

lemma potential_mouseStep:
  "mouseStep pf options gs mousePos nd i st = Inr st' \<Longrightarrow> potential st' = potential st"
  by (auto simp: mouseStep_def Let_def potential_updateAt potential_collectTarget
      split: option.splits sum.splits if_splits)

lemma isTarget_integrate [simp]: "isTarget (integrate nd p) = isTarget p"
  by (simp add: integrate_def Let_def)

lemma isTarget_contain [simp]: "isTarget (contain cs p) = isTarget p"
  by (simp add: contain_def Let_def)

lemma potential_drawParticle [simp]: "potential (drawParticle pf i st) = potential st"
  by (simp add: drawParticle_def)

lemma potential_stepParticle:
  "stepParticle pf options gs mousePos nd cs i st = Inr st' \<Longrightarrow> potential st' = potential st"
  by (auto simp: stepParticle_def Let_def potential_updateAt
      dest!: potential_mouseStep potential_collectorScan split: sum.splits if_splits)

lemma length_autonomousStep [simp]:
  "length (particlesRef (autonomousStep pf gs i st)) = length (particlesRef st)"
  by (simp add: autonomousStep_def steer_def randomNudge_def Let_def split_def
      split: ParticleBehavior.splits)

function updateLoop ::
  "platform \<Rightarrow> ParticleAnimationOptions \<Rightarrow> GameState \<Rightarrow> (real \<times> real) option \<Rightarrow> real
     \<Rightarrow> real \<times> real \<Rightarrow> nat \<Rightarrow> engine \<Rightarrow> error + engine" where
  "updateLoop pf options gs mousePos normalizedDelta canvasSize i st =
     (if i < length (particlesRef st) then
        (case stepParticle pf options gs mousePos normalizedDelta canvasSize i st of
           Inl e \<Rightarrow> Inl e
         | Inr st' \<Rightarrow> updateLoop pf options gs mousePos normalizedDelta canvasSize (i + 1) st')
      else Inr st)"
  by pat_completeness auto
termination
proof (relation "measure (\<lambda>(pf, options, gs, mousePos, nd, cs, i, st). potential st - i)")
  show "wf (measure (\<lambda>(pf, options, gs, mousePos, nd, cs, i, st). potential st - i))"
    by simp
next
  fix pf options gs mousePos normalizedDelta canvasSize i st st'
  assume i: "i < length (particlesRef st)"
    and step: "stepParticle pf options gs mousePos normalizedDelta canvasSize i st = Inr st'"
  have "potential st' = potential st" using step by (rule potential_stepParticle)
  moreover have "i < potential st" using i by (simp add: potential_def)
  ultimately show "((pf, options, gs, mousePos, normalizedDelta, canvasSize, i + 1, st'),
        (pf, options, gs, mousePos, normalizedDelta, canvasSize, i, st))
      \<in> measure (\<lambda>(pf, options, gs, mousePos, nd, cs, i, st). potential st - i)"
    by simp
qed

declare updateLoop.simps [simp del]

text \<open>
  One frame: \<^verbatim>\<open>updateParticles(ctx, delta)\<close>. Canvas drawing is left out; the currency
  text drawn last reads no state that changes.
\<close>

definition updateParticles ::
  "platform \<Rightarrow> ParticleAnimationOptions \<Rightarrow> GameState \<Rightarrow> real \<Rightarrow> engine \<Rightarrow> error + engine" where
  "updateParticles pf options gs delta st =
     (let mousePos = effectiveMousePos pf st;
          canvasSize = canvasSizeRef st;
          st1 = interactionCheck pf gs mousePos st;
          normalizedDelta = min delta 32 / 16
      in case spawnTarget pf options gs st1 of
           Inl e \<Rightarrow> Inl e
         | Inr st2 \<Rightarrow> updateLoop pf options gs mousePos normalizedDelta canvasSize 0 st2)"

section \<open>The variant without upgrades\<close>

text \<open>
  The initializer of the first variant of the hook, and the two fragments of its
  \<^verbatim>\<open>updateParticles\<close> that differ in kind from the second variant.
\<close>

text \<open>
  The \<^verbatim>\<open>initParticles\<close> of the first variant. Of the hook's cells it writes only
  \<^verbatim>\<open>particlesRef\<close>, here \<open>simpleParticlesRef\<close>; \<open>simpleRandomCalls\<close> counts the calls
  of \<^verbatim>\<open>Math.random()\<close>. The count is the option \<^verbatim>\<open>maxParticles\<close> itself.
\<close>

record simpleEngine =
  simpleParticlesRef :: "SimpleParticle list"
  simpleRandomCalls :: nat

definition simpleRandom :: "platform \<Rightarrow> simpleEngine \<Rightarrow> real \<times> simpleEngine" where
  "simpleRandom pf st =
     (randomValues pf (simpleRandomCalls st), st\<lparr>simpleRandomCalls := Suc (simpleRandomCalls st)\<rparr>)"

definition simpleCreateParticle ::
  "platform \<Rightarrow> real \<times> real \<Rightarrow> int \<Rightarrow> simpleEngine \<Rightarrow> simpleEngine" where
  "simpleCreateParticle pf cv i st0 =
     (let (r0, st1) = simpleRandom pf st0;
          (r1, st2) = simpleRandom pf st1;
          (r2, st3) = simpleRandom pf st2;
          (r3, st4) = simpleRandom pf st3;
          (r4, st5) = simpleRandom pf st4;
          (r5, st6) = simpleRandom pf st5;
          (r6, st7) = simpleRandom pf st6
      in st7\<lparr>simpleParticlesRef := simpleParticlesRef st7 @
           [\<lparr>px = r0 * fst cv,
             py = r1 * snd cv,
             psize = 1 + r2 * 2,
             vx = (r3 - 0.5) * 0.5,
             vy = (r4 - 0.5) * 0.5,
             color = Rgba 0 246 255 (0.5 + r5 * 0.5),
             alpha = 0.5 + r6 * 0.5,
             isTarget = Some (i < 3)\<rparr>]\<rparr>)"

function simpleInitLoop ::
  "platform \<Rightarrow> real \<times> real \<Rightarrow> int \<Rightarrow> int \<Rightarrow> simpleEngine \<Rightarrow> simpleEngine" where
  "simpleInitLoop pf cv n i st =
     (if i < n then simpleInitLoop pf cv n (i + 1) (simpleCreateParticle pf cv i st) else st)"
  by pat_completeness auto
termination
  by (relation "measure (\<lambda>(pf, cv, n, i, st). nat (n - i))") auto

declare simpleInitLoop.simps [simp del]

definition simpleInitParticles ::
  "platform \<Rightarrow> ParticleAnimationOptions \<Rightarrow> simpleEngine \<Rightarrow> simpleEngine" where
  "simpleInitParticles pf options st =
     (let st1 = st\<lparr>simpleParticlesRef := []\<rparr>
      in case canvas pf of
           None \<Rightarrow> st1
         | Some cv \<Rightarrow> simpleInitLoop pf cv (maxParticlesOf options) 0 st1)"


text \<open>
  The clean-up that ends its \<^verbatim>\<open>updateParticles\<close>, with
  \<^verbatim>\<open>Array.prototype.splice\<close> written out. \<open>cap\<close> is the option \<^verbatim>\<open>maxParticles\<close>.
\<close>

definition splice :: "int \<Rightarrow> int \<Rightarrow> 'a list \<Rightarrow> 'a list" where
  "splice start deleteCount xs =
     (let len = int (length xs);
          actualStart = (if start < 0 then max (len + start) 0 else min start len);
          actualDeleteCount = min (max deleteCount 0) (len - actualStart)
      in take (nat actualStart) xs @ drop (nat (actualStart + actualDeleteCount)) xs)"

definition cleanUpExcess :: "int \<Rightarrow> 'a list \<Rightarrow> 'a list" where
  "cleanUpExcess cap particles =
     (if real (length particles) > real_of_int cap * 1.5
      then splice cap (int (length particles) - cap) particles
      else particles)"

section \<open>The engine at mount, and sample inputs\<close>

text \<open>The initial values of the hook's \<^verbatim>\<open>useState\<close> and \<^verbatim>\<open>useRef\<close> cells.\<close>

definition mountEngine :: "int \<Rightarrow> engine" where
  "mountEngine t =
     \<lparr>gameState = initialGameState t, showScore = False, showHint = True,
      particlesRef = [], canvasSizeRef = (0, 0), targetCollectedTimeRef = 0,
      interactionStartTimeRef = 0, scaledMousePosRef = (0, 0),
      randomCalls = 0, clockCalls = 0\<rparr>"

text \<open>The first variant at mount, as far as its initializer is concerned.\<close>

definition simpleMount :: simpleEngine where
  "simpleMount = \<lparr>simpleParticlesRef = [], simpleRandomCalls = 0\<rparr>"

text \<open>The options \<^verbatim>\<open>ParticleCanvas\<close> passes to the hook.\<close>

definition canvasOptions :: ParticleAnimationOptions where
  "canvasOptions =
     \<lparr>opt_maxParticles = Some 60, opt_interactionRadius = Some 150,
      opt_repulsionStrength = Some 0.1, opt_targetSpawnRate = Some 0.01\<rparr>"

text \<open>
  A platform for the worked examples: an 800 by 600 canvas, every random draw 1/2, the
  clock at 5000 ms, no pointer sample from the shell.
\<close>

definition samplePlatform :: platform where
  "samplePlatform =
     \<lparr>randomValues = (\<lambda>k. 1 / 2), clockValues = (\<lambda>k. 5000),
      canvas = Some (800, 600), mousePositionRef = None\<rparr>"

definition sampleTarget :: Particle where
  "sampleTarget =
     \<lparr>px = 100, py = 100, psize = 2, vx = 0, vy = 0, color = Rgba 0 246 255 0.75,
      alpha = 0.75, isTarget = Some True, isCollector = Some False, autonomy = 0,
      behavior = normal, lastDirectionChange = 0\<rparr>"

definition sampleEngine :: engine where
  "sampleEngine = (mountEngine 0)\<lparr>particlesRef := [sampleTarget], canvasSizeRef := (800, 600)\<rparr>"

text \<open>The sample engine with 5 and with 4 units of currency.\<close>

definition richEngine :: engine where
  "richEngine = sampleEngine\<lparr>gameState := (initialGameState 0)\<lparr>currency := 5\<rparr>\<rparr>"

definition poorEngine :: engine where
  "poorEngine = sampleEngine\<lparr>gameState := (initialGameState 0)\<lparr>currency := 4\<rparr>\<rparr>"

text \<open>An empty storage that accepts writes.\<close>

definition emptyStorage :: localStorage where
  "emptyStorage = \<lparr>items = Map.empty, writable = True\<rparr>"

text \<open>A hook with the option \<open>maxParticles = 1\<close>, and the sample engine with the pointer on its
  target particle.\<close>

definition tinyOptions :: ParticleAnimationOptions where
  "tinyOptions = canvasOptions\<lparr>opt_maxParticles := Some 1\<rparr>"

definition pointedEngine :: engine where
  "pointedEngine = sampleEngine\<lparr>scaledMousePosRef := (100, 100)\<rparr>"







section \<open>Properties of double rounding\<close>

lemma number_less_PosInfinity [simp]: "number_less PosInfinity r = False"
  by (cases r) simp_all

lemma powi_nat: "0 \<le> k \<Longrightarrow> (2::real) powi k = 2 ^ nat k"
  by (simp add: power_int_def)

lemma binade_bounds:
  assumes "x \<noteq> 0"
  shows "2 powi binade x \<le> \<bar>x\<bar> \<and> \<bar>x\<bar> < 2 powi (binade x + 1)"
proof (cases "1 \<le> \<bar>x\<bar>")
  case True
  let ?m = "\<lfloor>\<bar>x\<bar>\<rfloor>"
  let ?k = "bitlen ?m"
  have m: "0 < ?m" using True by simp
  from bitlen_bounds [OF m] have lo: "2 ^ nat (?k - 1) \<le> ?m" and hi: "?m < 2 ^ nat ?k"
    by simp_all
  have k: "1 \<le> ?k"
    using m bitlen_nonneg [of ?m] bitlen_eq_zero_iff [of ?m] by linarith
  have "real_of_int (2 ^ nat (?k - 1)) \<le> real_of_int ?m" using lo by linarith
  also have "\<dots> \<le> \<bar>x\<bar>" by simp
  finally have a: "2 powi (?k - 1) \<le> \<bar>x\<bar>" using k by (simp add: powi_nat)
  have "?m + 1 \<le> 2 ^ nat ?k" using hi by simp
  then have "real_of_int (?m + 1) \<le> real_of_int (2 ^ nat ?k)" by linarith
  moreover have "\<bar>x\<bar> < real_of_int (?m + 1)" by linarith
  ultimately have "\<bar>x\<bar> < real_of_int (2 ^ nat ?k)" by linarith
  then have b: "\<bar>x\<bar> < 2 powi ?k" using k by (simp add: powi_nat)
  show ?thesis using a b True by (simp add: binade_def)
next
  case False
  let ?y = "1 / \<bar>x\<bar>"
  let ?m = "\<lceil>?y\<rceil> - 1"
  let ?k = "bitlen ?m"
  have xpos: "0 < \<bar>x\<bar>" using assms by simp
  have y: "1 < ?y" using False xpos by simp
  have m: "0 < ?m" using y by linarith
  from bitlen_bounds [OF m] have lo: "2 ^ nat (?k - 1) \<le> ?m" and hi: "?m < 2 ^ nat ?k"
    by simp_all
  have k: "1 \<le> ?k"
    using m bitlen_nonneg [of ?m] bitlen_eq_zero_iff [of ?m] by linarith
  have "real_of_int (2 ^ nat (?k - 1)) \<le> real_of_int ?m" using lo by linarith
  also have "\<dots> < ?y" by linarith
  finally have "2 ^ nat (?k - 1) < ?y" by simp
  then have "\<bar>x\<bar> * 2 ^ nat (?k - 1) < 1"
    using xpos by (simp add: field_simps)
  then have "\<bar>x\<bar> < 1 / 2 ^ nat (?k - 1)"
    by (simp add: field_simps)
  also have "1 / 2 ^ nat (?k - 1) = (2::real) powi (- ?k + 1)"
    using k by (simp add: power_int_def nat_diff_distrib field_simps)
  finally have b: "\<bar>x\<bar> < 2 powi (- ?k + 1)" .
  have "\<lceil>?y\<rceil> \<le> 2 ^ nat ?k" using hi by simp
  then have "real_of_int \<lceil>?y\<rceil> \<le> real_of_int (2 ^ nat ?k)" by linarith
  moreover have "?y \<le> real_of_int \<lceil>?y\<rceil>" by simp
  ultimately have "?y \<le> real_of_int (2 ^ nat ?k)" by linarith
  then have "?y \<le> 2 ^ nat ?k" by simp
  then have "1 \<le> \<bar>x\<bar> * 2 ^ nat ?k" using xpos by (simp add: field_simps)
  then have "1 / 2 ^ nat ?k \<le> \<bar>x\<bar>" by (simp add: field_simps)
  moreover have "1 / 2 ^ nat ?k = (2::real) powi (- ?k)"
    using k by (simp add: power_int_def field_simps)
  ultimately have a: "2 powi (- ?k) \<le> \<bar>x\<bar>" by simp
  show ?thesis using a b False by (simp add: binade_def)
qed

lemma binade_unique:
  assumes lo: "2 powi e \<le> \<bar>x\<bar>" and hi: "\<bar>x\<bar> < 2 powi (e + 1)"
  shows "binade x = e"
proof -
  have nz: "x \<noteq> 0"
  proof
    assume "x = 0"
    then have "(2::real) powi e \<le> 0" using lo by simp
    moreover have "0 < (2::real) powi e" by simp
    ultimately show False by linarith
  qed
  from binade_bounds [OF nz] have blo: "2 powi binade x \<le> \<bar>x\<bar>"
    and bhi: "\<bar>x\<bar> < 2 powi (binade x + 1)" by simp_all
  have "(2::real) powi e < 2 powi (binade x + 1)" using lo bhi by linarith
  then have 1: "e < binade x + 1"
    by (metis linorder_not_less power_int_increasing one_le_numeral)
  have "(2::real) powi binade x < 2 powi (e + 1)" using blo hi by linarith
  then have 2: "binade x < e + 1"
    by (metis linorder_not_less power_int_increasing one_le_numeral)
  from 1 2 show ?thesis by simp
qed

lemma round_even_error: "\<bar>real_of_int (round_even n) - n\<bar> \<le> 1 / 2"
  unfolding round_even_def Let_def by (auto simp: abs_if) linarith+

lemma rnd_eval:
  assumes "2 powi e \<le> \<bar>x\<bar>" and "\<bar>x\<bar> < 2 powi (e + 1)" and "- 1022 \<le> e"
  shows "rnd x = of_int (round_even (x / 2 powi (e - 52))) * 2 powi (e - 52)"
proof -
  have nz: "x \<noteq> 0"
  proof
    assume "x = 0"
    then have "(2::real) powi e \<le> 0" using assms(1) by simp
    moreover have "0 < (2::real) powi e" by simp
    ultimately show False by linarith
  qed
  have "binade x = e" using assms(1,2) by (rule binade_unique)
  then show ?thesis using nz assms(3) by (simp add: rnd_def Let_def max_def)
qed

lemma rnd_error:
  assumes "1 \<le> x"
  shows "\<bar>rnd x - x\<bar> \<le> x / 2 ^ 53"
proof -
  have nz: "x \<noteq> 0" using assms by simp
  let ?e = "binade x"
  from binade_bounds [OF nz] have lo: "2 powi ?e \<le> x" and hi: "x < 2 powi (?e + 1)"
    using assms by simp_all
  have "(2::real) powi 0 < 2 powi (?e + 1)" using assms hi by simp
  then have e0: "0 \<le> ?e"
    by (metis linorder_not_less power_int_increasing one_le_numeral zle_add1_eq_le)
  let ?q = "(2::real) powi (?e - 52)"
  have qpos: "0 < ?q" by simp
  have q: "?q = 2 powi ?e / 2 ^ 52"
    by (simp add: power_int_diff)
  have r: "rnd x = of_int (round_even (x / ?q)) * ?q"
    using nz e0 by (simp add: rnd_def Let_def max_def)
  have "rnd x - x = (of_int (round_even (x / ?q)) - x / ?q) * ?q"
    using qpos by (simp add: r left_diff_distrib)
  then have "\<bar>rnd x - x\<bar> = \<bar>of_int (round_even (x / ?q)) - x / ?q\<bar> * \<bar>?q\<bar>"
    by (simp only: abs_mult)
  also have "\<dots> = \<bar>of_int (round_even (x / ?q)) - x / ?q\<bar> * ?q"
    using qpos by simp
  finally have "\<bar>rnd x - x\<bar> = \<bar>of_int (round_even (x / ?q)) - x / ?q\<bar> * ?q" .
  also have "\<dots> \<le> 1 / 2 * ?q"
    using round_even_error [of "x / ?q"] qpos by (intro mult_right_mono) simp_all
  also have "\<dots> = 2 powi ?e / 2 ^ 53" by (simp add: q)
  also have "\<dots> \<le> x / 2 ^ 53" using lo by (simp add: divide_right_mono)
  finally show ?thesis .
qed

lemma rnd_band:
  assumes "1 \<le> x"
  shows "x - x / 2 ^ 53 \<le> rnd x" and "rnd x \<le> x + x / 2 ^ 53"
  using rnd_error [OF assms] by linarith+

lemma rnd_pos: "1 \<le> x \<Longrightarrow> 0 < rnd x"
proof -
  assume x: "1 \<le> x"
  have "x / 2 ^ 53 \<le> x / 2" using x by (simp add: field_simps)
  then show ?thesis using rnd_band(1) [OF x] x by linarith
qed

lemma round_double_pos:
  "1 \<le> x \<Longrightarrow> round_double x = (if 2 ^ 1024 \<le> rnd x then PosInfinity else Finite (rnd x))"
  using rnd_pos [of x] by (simp add: round_double_def)

lemma rnd_ge_3_2: "8 / 5 \<le> x \<Longrightarrow> 3 / 2 \<le> rnd x"
proof -
  assume x: "8 / 5 \<le> x"
  then have "1 \<le> x" by simp
  from rnd_band(1) [OF this] have "x - x / 2 ^ 53 \<le> rnd x" .
  moreover have "x / 2 ^ 53 \<le> x / 16" using x by (simp add: field_simps)
  ultimately show ?thesis using x by linarith
qed

lemma rnd_ge_3: "8 / 5 \<le> x \<Longrightarrow> 3 \<le> rnd x * 2"
  using rnd_ge_3_2 [of x] by simp

lemma rnd_3_2 [simp]: "rnd (3 / 2) = 3 / 2"
  using rnd_eval [of 0 "3 / 2"] by (simp add: round_even_def)

lemma rnd_5_2 [simp]: "rnd (5 / 2) = 5 / 2"
  using rnd_eval [of 1 "5 / 2"] by (simp add: round_even_def)

lemma rnd_15_2: "rnd (15 / 2) = 15 / 2"
  using rnd_eval [of 2 "15 / 2"] by (simp add: round_even_def)

lemma rnd_9_4: "rnd (9 / 4) = 9 / 4"
  using rnd_eval [of 1 "9 / 4"] by (simp add: round_even_def)

lemma rnd_45_4: "rnd (45 / 4) = 45 / 4"
  using rnd_eval [of 3 "45 / 4"] by (simp add: round_even_def)

text \<open>The roundings that the worked examples go through.\<close>

lemma rnd_1_5th: "rnd (1 / 5) = 3602879701896397 / 18014398509481984"
  using rnd_eval [of "- 3" "1 / 5"] by (simp add: round_even_def)

lemma rnd_level1: "rnd (3602879701896397 / 18014398509481984) = 3602879701896397 / 18014398509481984"
  using rnd_eval [of "- 3" "3602879701896397 / 18014398509481984"] by (simp add: round_even_def)

lemma rnd_scale1: "rnd (21617278211378381 / 18014398509481984) = 5404319552844595 / 4503599627370496"
  using rnd_eval [of "0" "21617278211378381 / 18014398509481984"] by (simp add: round_even_def)

lemma rnd_count_60_1: "rnd (81064793292668925 / 1125899906842624) = 72"
  using rnd_eval [of "6" "81064793292668925 / 1125899906842624"] by (simp add: round_even_def)

lemma rnd_count_1_1: "rnd (5404319552844595 / 4503599627370496) = 5404319552844595 / 4503599627370496"
  using rnd_eval [of "0" "5404319552844595 / 4503599627370496"] by (simp add: round_even_def)

lemma rnd_level2: "rnd (3602879701896397 / 9007199254740992) = 3602879701896397 / 9007199254740992"
  using rnd_eval [of "- 2" "3602879701896397 / 9007199254740992"] by (simp add: round_even_def)

lemma rnd_scale2: "rnd (12610078956637389 / 9007199254740992) = 3152519739159347 / 2251799813685248"
  using rnd_eval [of "0" "12610078956637389 / 9007199254740992"] by (simp add: round_even_def)

lemma rnd_count_60_2: "rnd (47287796087390205 / 562949953421312) = 84"
  using rnd_eval [of "6" "47287796087390205 / 562949953421312"] by (simp add: round_even_def)

lemma rnd_count_45_2: "rnd (141863388262170615 / 2251799813685248) = 8866461766385663 / 140737488355328"
  using rnd_eval [of "5" "141863388262170615 / 2251799813685248"] by (simp add: round_even_def)

lemma rnd_pow38: "rnd ((5 / 2) ^ 38) = 5293955920339377 / 4"
  using rnd_eval [of 50 "(5 / 2) ^ 38"] by (simp add: round_even_def power_divide)

lemma rnd_price38: "rnd (132348898008484425 / 4) = 33087224502121108"
  using rnd_eval [of 54 "132348898008484425 / 4"] by (simp add: round_even_def)

section \<open>Properties of the cost curve\<close>

lemma baseCost_ge_5: "5 \<le> lookup_or baseCosts k 10"
proof (cases "map_of baseCosts k")
  case None
  then show ?thesis by (simp add: lookup_or_def)
next
  case (Some v)
  then have "(k, v) \<in> set baseCosts" by (rule map_of_SomeD)
  then have "5 \<le> v" by (auto simp: baseCosts_def)
  with Some show ?thesis by (simp add: lookup_or_def)
qed

lemma scaleFactor_ge: "3 / 2 \<le> lookup_or scaleFactor k (rnd 1.5)"
proof (cases "map_of scaleFactor k")
  case None
  then show ?thesis by (simp add: lookup_or_def)
next
  case (Some v)
  then have "(k, v) \<in> set scaleFactor" by (rule map_of_SomeD)
  then have "3 / 2 \<le> v" by (auto simp: scaleFactor_def rnd_ge_3)
  with Some show ?thesis by (simp add: lookup_or_def)
qed

lemma floor_gap: "(x::real) + 1 \<le> y \<Longrightarrow> \<lfloor>x\<rfloor> < \<lfloor>y\<rfloor>"
proof -
  assume "x + 1 \<le> y"
  then have "\<lfloor>x + 1\<rfloor> \<le> \<lfloor>y\<rfloor>" by (rule floor_mono)
  then show ?thesis by simp
qed

text \<open>The value of one price, given what the power function returned.\<close>

lemma price_cases:
  fixes b v :: real
  assumes acc: "approximates r v" and b: "5 \<le> b" and v: "1 \<le> v"
  shows "(Math_floor (number_times (Finite b) r) = PosInfinity
            \<and> 2 ^ 1024 \<le> b * v * (1 + 1 / 2 ^ 51))
       \<or> (\<exists>y. Math_floor (number_times (Finite b) r) = Finite (of_int \<lfloor>y\<rfloor>)
              \<and> b * v * (1 - 1 / 2 ^ 51) \<le> y \<and> y \<le> b * v * (1 + 1 / 2 ^ 51)
              \<and> y < 2 ^ 1024)"
proof -
  let ?X = "b * v"
  have X: "5 \<le> ?X" using mult_mono [of 5 b 1 v] b v by simp
  show ?thesis
  proof (cases r)
    case (Finite p)
    with acc have p: "\<bar>p - v\<bar> \<le> v / 2 ^ 52" by (simp add: approximates_def)
    have "\<bar>b * p - ?X\<bar> = b * \<bar>p - v\<bar>"
      using b by (simp add: abs_mult right_diff_distrib [symmetric])
    also have "\<dots> \<le> b * (v / 2 ^ 52)"
      using p b by (intro mult_left_mono) simp_all
    finally have bp: "\<bar>b * p - ?X\<bar> \<le> ?X / 2 ^ 52" by simp
    have bp1: "?X - ?X / 2 ^ 52 \<le> b * p" and bp2: "b * p \<le> ?X + ?X / 2 ^ 52"
      using bp by linarith+
    have one: "1 \<le> b * p" using bp1 X by simp
    let ?y = "rnd (b * p)"
    from rnd_band [OF one] have y1: "b * p - b * p / 2 ^ 53 \<le> ?y"
      and y2: "?y \<le> b * p + b * p / 2 ^ 53" by simp_all
    have lo: "?X * (1 - 1 / 2 ^ 51) \<le> ?y"
      using y1 bp1 X by simp
    have hi: "?y \<le> ?X * (1 + 1 / 2 ^ 51)"
      using y2 bp2 X by simp
    have val: "number_times (Finite b) r
        = (if 2 ^ 1024 \<le> ?y then PosInfinity else Finite ?y)"
      using Finite by (simp add: round_double_pos [OF one])
    show ?thesis
    proof (cases "2 ^ 1024 \<le> ?y")
      case True
      then have "2 ^ 1024 \<le> ?X * (1 + 1 / 2 ^ 51)" using hi by linarith
      with True val show ?thesis by simp
    next
      case False
      then have "Math_floor (number_times (Finite b) r) = Finite (of_int \<lfloor>?y\<rfloor>)
          \<and> ?X * (1 - 1 / 2 ^ 51) \<le> ?y \<and> ?y \<le> ?X * (1 + 1 / 2 ^ 51) \<and> ?y < 2 ^ 1024"
        using val lo hi by simp
      then show ?thesis by blast
    qed
  next
    case PosInfinity
    with acc have "2 ^ 1024 \<le> v * (1 + 1 / 2 ^ 52)" by (simp add: approximates_def)
    then have "2 ^ 1024 \<le> v * (1 + 1 / 2 ^ 51)" using v by (simp add: algebra_simps)
    also have "\<dots> \<le> ?X * (1 + 1 / 2 ^ 51)"
      using b v by (intro mult_right_mono) simp_all
    finally have "2 ^ 1024 \<le> ?X * (1 + 1 / 2 ^ 51)" .
    moreover have "Math_floor (number_times (Finite b) r) = PosInfinity"
      using PosInfinity b by simp
    ultimately show ?thesis by simp
  next
    case NegInfinity
    with acc show ?thesis by (simp add: approximates_def)
  next
    case NaN
    with acc show ?thesis by (simp add: approximates_def)
  qed
qed

lemma price_step:
  fixes X f y y' :: real
  assumes X: "5 \<le> X" and f: "3 / 2 \<le> f"
    and y: "y \<le> X * (1 + 1 / 2 ^ 51)" and y': "X * f * (1 - 1 / 2 ^ 51) \<le> y'"
  shows "y + 1 \<le> y'"
proof -
  define Z where "Z = X * f"
  have Z: "X * (3 / 2) \<le> Z"
    unfolding Z_def using X f by (intro mult_left_mono) simp_all
  have a: "y \<le> X + X / 2 ^ 51" using y by (simp add: algebra_simps)
  have "Z * (1 - 1 / 2 ^ 51) \<le> y'" using y' by (simp only: Z_def)
  then have b: "Z - Z / 2 ^ 51 \<le> y'" by (simp add: algebra_simps)
  show ?thesis using a b Z X by simp
qed

lemma costFormula_ge_5: "5 \<le> costFormula k L"
proof -
  have "1 \<le> lookup_or scaleFactor k (rnd 1.5)" using scaleFactor_ge [of k] by simp
  then have "1 \<le> lookup_or scaleFactor k (rnd 1.5) ^ nat L" by (rule one_le_power)
  then show ?thesis
    using mult_mono [of 5 "lookup_or baseCosts k 10" 1 "lookup_or scaleFactor k (rnd 1.5) ^ nat L"]
      baseCost_ge_5 [of k]
    by (simp add: costFormula_def)
qed

lemma costFormula_Suc:
  "0 \<le> L \<Longrightarrow> costFormula k (L + 1) = costFormula k L * lookup_or scaleFactor k (rnd 1.5)"
  by (simp add: costFormula_def nat_add_distrib)

lemma getUpgradeCost_cases:
  assumes acc: "pow_accurate pow" and L: "0 \<le> L"
  shows "(getUpgradeCost pow k L = PosInfinity
            \<and> 2 ^ 1024 \<le> costFormula k L * (1 + 1 / 2 ^ 51))
       \<or> (\<exists>y. getUpgradeCost pow k L = Finite (of_int \<lfloor>y\<rfloor>)
              \<and> costFormula k L * (1 - 1 / 2 ^ 51) \<le> y
              \<and> y \<le> costFormula k L * (1 + 1 / 2 ^ 51)
              \<and> y < 2 ^ 1024)"
proof -
  let ?b = "lookup_or baseCosts k 10"
  let ?f = "lookup_or scaleFactor k (rnd 1.5)"
  have f: "1 \<le> ?f" using scaleFactor_ge [of k] by simp
  then have v: "1 \<le> ?f ^ nat L" by (rule one_le_power)
  have a: "approximates (pow ?f L) (?f ^ nat L)"
    using acc f L by (simp add: pow_accurate_def)
  from price_cases [OF a baseCost_ge_5 v] show ?thesis
    by (simp add: getUpgradeCost_def costFormula_def Let_def)
qed

lemma getUpgradeCost_total:
  assumes "pow_accurate pow" and "0 \<le> L"
  shows "isFinite (getUpgradeCost pow k L) \<or> getUpgradeCost pow k L = PosInfinity"
  using getUpgradeCost_cases [OF assms, of k] by auto

lemma getUpgradeCost_finite:
  assumes "pow_accurate pow" and "0 \<le> L"
    and "costFormula k L * (1 + 1 / 2 ^ 51) < 2 ^ 1024"
  shows "isFinite (getUpgradeCost pow k L)"
  using getUpgradeCost_cases [OF assms(1,2), of k] assms(3) by auto

lemma getUpgradeCost_infinite:
  assumes "pow_accurate pow" and "0 \<le> L"
    and "2 ^ 1024 \<le> costFormula k L * (1 - 1 / 2 ^ 51)"
  shows "getUpgradeCost pow k L = PosInfinity"
  using getUpgradeCost_cases [OF assms(1,2), of k] assms(3) by auto

lemma getUpgradeCost_close:
  assumes "pow_accurate pow" and "0 \<le> L" and fin: "isFinite (getUpgradeCost pow k L)"
  shows "\<exists>c. getUpgradeCost pow k L = Finite (of_int c)
           \<and> costFormula k L * (1 - 1 / 2 ^ 51) - 1 < of_int c
           \<and> of_int c \<le> costFormula k L * (1 + 1 / 2 ^ 51)"
proof -
  from getUpgradeCost_cases [OF assms(1,2), of k] fin
  obtain y where c: "getUpgradeCost pow k L = Finite (of_int \<lfloor>y\<rfloor>)"
    and lo: "costFormula k L * (1 - 1 / 2 ^ 51) \<le> y"
    and hi: "y \<le> costFormula k L * (1 + 1 / 2 ^ 51)"
    by auto
  have "y - 1 < of_int \<lfloor>y\<rfloor>" by linarith
  then have 1: "costFormula k L * (1 - 1 / 2 ^ 51) - 1 < of_int \<lfloor>y\<rfloor>" using lo by linarith
  have "of_int \<lfloor>y\<rfloor> \<le> y" by simp
  then have 2: "of_int \<lfloor>y\<rfloor> \<le> costFormula k L * (1 + 1 / 2 ^ 51)" using hi by linarith
  from c 1 2 show ?thesis by blast
qed

lemma getUpgradeCost_step:
  assumes acc: "pow_accurate pow" and L: "0 \<le> L"
  shows "number_less (getUpgradeCost pow k L) (getUpgradeCost pow k (L + 1))
           \<longleftrightarrow> isFinite (getUpgradeCost pow k L)"
proof (cases "isFinite (getUpgradeCost pow k L)")
  case False
  with getUpgradeCost_total [OF acc L, of k]
  have "getUpgradeCost pow k L = PosInfinity" by simp
  then show ?thesis by simp
next
  case True
  from getUpgradeCost_cases [OF acc L, of k] True
  obtain y where c: "getUpgradeCost pow k L = Finite (of_int \<lfloor>y\<rfloor>)"
    and hi: "y \<le> costFormula k L * (1 + 1 / 2 ^ 51)"
    by auto
  have L': "0 \<le> L + 1" using L by simp
  from getUpgradeCost_cases [OF acc L', of k]
  show ?thesis
  proof
    assume "getUpgradeCost pow k (L + 1) = PosInfinity
        \<and> 2 ^ 1024 \<le> costFormula k (L + 1) * (1 + 1 / 2 ^ 51)"
    then show ?thesis using c by simp
  next
    assume "\<exists>y. getUpgradeCost pow k (L + 1) = Finite (of_int \<lfloor>y\<rfloor>)
        \<and> costFormula k (L + 1) * (1 - 1 / 2 ^ 51) \<le> y
        \<and> y \<le> costFormula k (L + 1) * (1 + 1 / 2 ^ 51) \<and> y < 2 ^ 1024"
    then obtain y' where c': "getUpgradeCost pow k (L + 1) = Finite (of_int \<lfloor>y'\<rfloor>)"
      and lo': "costFormula k (L + 1) * (1 - 1 / 2 ^ 51) \<le> y'"
      by blast
    have "costFormula k L * lookup_or scaleFactor k (rnd 1.5) * (1 - 1 / 2 ^ 51) \<le> y'"
      using lo' by (simp only: costFormula_Suc [OF L])
    with costFormula_ge_5 scaleFactor_ge hi have "y + 1 \<le> y'"
      by (rule price_step)
    then have "\<lfloor>y\<rfloor> < \<lfloor>y'\<rfloor>" by (rule floor_gap)
    then show ?thesis using c c' by simp
  qed
qed

text \<open>
  Where the prices of \<open>maxParticles\<close> and \<open>autoCollectors\<close> leave the doubles:
  \<open>5 * 1.5 ^ 1746\<close> and \<open>25 * 2.5 ^ 771\<close> are below \<open>2 ^ 1024\<close>, the next powers are not.
\<close>

lemma costFormula_maxParticles: "costFormula ''maxParticles'' L = 5 * (3 / 2) ^ nat L"
  by (simp add: costFormula_def lookup_or_def baseCosts_def scaleFactor_def)

lemma costFormula_autoCollectors: "costFormula ''autoCollectors'' L = 25 * (5 / 2) ^ nat L"
  by (simp add: costFormula_def lookup_or_def baseCosts_def scaleFactor_def)

lemma pow_3_2_97: "1838112962670 * 2 ^ 16 \<le> (3 / 2 :: real) ^ 97"
  "(3 / 2 :: real) ^ 97 \<le> 1838112962671 * 2 ^ 16"
  by (simp_all add: power_divide)

lemma pow_5_2_257: "1830684587274 * 2 ^ 299 \<le> (5 / 2 :: real) ^ 257"
  "(5 / 2 :: real) ^ 257 \<le> 1830684587275 * 2 ^ 299"
  by (simp_all add: power_divide)

lemma maxParticles_below: "5 * (3 / 2 :: real) ^ 1746 * (1 + 1 / 2 ^ 51) < 2 ^ 1024"
proof -
  have "(3 / 2 :: real) ^ 1746 = ((3 / 2) ^ 97) ^ 18" by (simp add: power_mult [symmetric])
  also have "\<dots> \<le> (1838112962671 * 2 ^ 16) ^ 18"
    by (rule power_mono [OF pow_3_2_97(2)]) simp
  finally have "(3 / 2 :: real) ^ 1746 \<le> (1838112962671 * 2 ^ 16) ^ 18" .
  then have "5 * (3 / 2 :: real) ^ 1746 * (1 + 1 / 2 ^ 51)
      \<le> 5 * (1838112962671 * 2 ^ 16) ^ 18 * (1 + 1 / 2 ^ 51)"
    by (intro mult_right_mono mult_left_mono) simp_all
  also have "\<dots> < 2 ^ 1024" by (simp add: power_mult_distrib)
  finally show ?thesis .
qed

lemma maxParticles_above: "2 ^ 1024 \<le> 5 * (3 / 2 :: real) ^ 1747 * (1 - 1 / 2 ^ 51)"
proof -
  have "(1838112962670 * 2 ^ 16 :: real) ^ 18 \<le> ((3 / 2) ^ 97) ^ 18"
    by (rule power_mono [OF pow_3_2_97(1)]) simp
  also have "\<dots> = (3 / 2 :: real) ^ 1746" by (simp add: power_mult [symmetric])
  finally have "(1838112962670 * 2 ^ 16 :: real) ^ 18 \<le> (3 / 2) ^ 1746" .
  then have "(1838112962670 * 2 ^ 16 :: real) ^ 18 * (3 / 2) \<le> (3 / 2) ^ 1746 * (3 / 2)"
    by (intro mult_right_mono) simp_all
  also have "\<dots> = (3 / 2 :: real) ^ 1747"
    using power_Suc2 [of "3 / 2 :: real" 1746] by simp
  finally have "5 * ((1838112962670 * 2 ^ 16 :: real) ^ 18 * (3 / 2)) * (1 - 1 / 2 ^ 51)
      \<le> 5 * (3 / 2 :: real) ^ 1747 * (1 - 1 / 2 ^ 51)"
    by (intro mult_right_mono mult_left_mono) simp_all
  moreover have "(2 :: real) ^ 1024
      \<le> 5 * ((1838112962670 * 2 ^ 16 :: real) ^ 18 * (3 / 2)) * (1 - 1 / 2 ^ 51)"
    by (simp add: power_mult_distrib)
  ultimately show ?thesis by linarith
qed

lemma autoCollectors_below: "25 * (5 / 2 :: real) ^ 771 * (1 + 1 / 2 ^ 51) < 2 ^ 1024"
proof -
  have "(5 / 2 :: real) ^ 771 = ((5 / 2) ^ 257) ^ 3" by (simp add: power_mult [symmetric])
  also have "\<dots> \<le> (1830684587275 * 2 ^ 299) ^ 3"
    by (rule power_mono [OF pow_5_2_257(2)]) simp
  finally have "(5 / 2 :: real) ^ 771 \<le> (1830684587275 * 2 ^ 299) ^ 3" .
  then have "25 * (5 / 2 :: real) ^ 771 * (1 + 1 / 2 ^ 51)
      \<le> 25 * (1830684587275 * 2 ^ 299) ^ 3 * (1 + 1 / 2 ^ 51)"
    by (intro mult_right_mono mult_left_mono) simp_all
  also have "\<dots> < 2 ^ 1024" by (simp add: power_mult_distrib)
  finally show ?thesis .
qed

lemma autoCollectors_above: "2 ^ 1024 \<le> 25 * (5 / 2 :: real) ^ 772 * (1 - 1 / 2 ^ 51)"
proof -
  have "(1830684587274 * 2 ^ 299 :: real) ^ 3 \<le> ((5 / 2) ^ 257) ^ 3"
    by (rule power_mono [OF pow_5_2_257(1)]) simp
  also have "\<dots> = (5 / 2 :: real) ^ 771" by (simp add: power_mult [symmetric])
  finally have "(1830684587274 * 2 ^ 299 :: real) ^ 3 \<le> (5 / 2) ^ 771" .
  then have "(1830684587274 * 2 ^ 299 :: real) ^ 3 * (5 / 2) \<le> (5 / 2) ^ 771 * (5 / 2)"
    by (intro mult_right_mono) simp_all
  also have "\<dots> = (5 / 2 :: real) ^ 772"
    using power_Suc2 [of "5 / 2 :: real" 771] by simp
  finally have "25 * ((1830684587274 * 2 ^ 299 :: real) ^ 3 * (5 / 2)) * (1 - 1 / 2 ^ 51)
      \<le> 25 * (5 / 2 :: real) ^ 772 * (1 - 1 / 2 ^ 51)"
    by (intro mult_right_mono mult_left_mono) simp_all
  moreover have "(2 :: real) ^ 1024
      \<le> 25 * ((1830684587274 * 2 ^ 299 :: real) ^ 3 * (5 / 2)) * (1 - 1 / 2 ^ 51)"
    by (simp add: power_mult_distrib)
  ultimately show ?thesis by linarith
qed

lemma maxParticles_finite:
  assumes acc: "pow_accurate pow" and L: "0 \<le> L"
  shows "isFinite (getUpgradeCost pow ''maxParticles'' L) \<longleftrightarrow> L \<le> 1746"
proof (cases "L \<le> 1746")
  case True
  then have "nat L \<le> 1746" by simp
  then have "(3 / 2 :: real) ^ nat L \<le> (3 / 2) ^ 1746"
    by (intro power_increasing) simp_all
  then have "5 * (3 / 2 :: real) ^ nat L * (1 + 1 / 2 ^ 51)
      \<le> 5 * (3 / 2) ^ 1746 * (1 + 1 / 2 ^ 51)"
    by (intro mult_right_mono mult_left_mono) simp_all
  with maxParticles_below
  have "costFormula ''maxParticles'' L * (1 + 1 / 2 ^ 51) < 2 ^ 1024"
    by (simp only: costFormula_maxParticles)
  from getUpgradeCost_finite [OF acc L this] True show ?thesis by simp
next
  case False
  then have "1747 \<le> nat L" by simp
  then have "(3 / 2 :: real) ^ 1747 \<le> (3 / 2) ^ nat L"
    by (intro power_increasing) simp_all
  then have "5 * (3 / 2 :: real) ^ 1747 * (1 - 1 / 2 ^ 51)
      \<le> 5 * (3 / 2) ^ nat L * (1 - 1 / 2 ^ 51)"
    by (intro mult_right_mono mult_left_mono) simp_all
  with maxParticles_above
  have "2 ^ 1024 \<le> costFormula ''maxParticles'' L * (1 - 1 / 2 ^ 51)"
    by (simp only: costFormula_maxParticles)
  from getUpgradeCost_infinite [OF acc L this] False show ?thesis by simp
qed

lemma autoCollectors_finite:
  assumes acc: "pow_accurate pow" and L: "0 \<le> L"
  shows "isFinite (getUpgradeCost pow ''autoCollectors'' L) \<longleftrightarrow> L \<le> 771"
proof (cases "L \<le> 771")
  case True
  then have "nat L \<le> 771" by simp
  then have "(5 / 2 :: real) ^ nat L \<le> (5 / 2) ^ 771"
    by (intro power_increasing) simp_all
  then have "25 * (5 / 2 :: real) ^ nat L * (1 + 1 / 2 ^ 51)
      \<le> 25 * (5 / 2) ^ 771 * (1 + 1 / 2 ^ 51)"
    by (intro mult_right_mono mult_left_mono) simp_all
  with autoCollectors_below
  have "costFormula ''autoCollectors'' L * (1 + 1 / 2 ^ 51) < 2 ^ 1024"
    by (simp only: costFormula_autoCollectors)
  from getUpgradeCost_finite [OF acc L this] True show ?thesis by simp
next
  case False
  then have "772 \<le> nat L" by simp
  then have "(5 / 2 :: real) ^ 772 \<le> (5 / 2) ^ nat L"
    by (intro power_increasing) simp_all
  then have "25 * (5 / 2 :: real) ^ 772 * (1 - 1 / 2 ^ 51)
      \<le> 25 * (5 / 2) ^ nat L * (1 - 1 / 2 ^ 51)"
    by (intro mult_right_mono mult_left_mono) simp_all
  with autoCollectors_above
  have "2 ^ 1024 \<le> costFormula ''autoCollectors'' L * (1 - 1 / 2 ^ 51)"
    by (simp only: costFormula_autoCollectors)
  from getUpgradeCost_infinite [OF acc L this] False show ?thesis by simp
qed

lemma correctPow_nonneg: "b \<noteq> 0 \<Longrightarrow> 0 \<le> e \<Longrightarrow> correctPow b e = round_double (b ^ nat e)"
  by (simp add: correctPow_def power_int_def)

lemma correctPow_accurate: "pow_accurate correctPow"
  unfolding pow_accurate_def
proof (intro allI impI)
  fix b :: real and e :: int
  assume "1 \<le> b \<and> 0 \<le> e"
  then have b: "1 \<le> b" and e: "0 \<le> e" by simp_all
  have v: "1 \<le> b ^ nat e" using b by (rule one_le_power)
  have val: "correctPow b e
      = (if 2 ^ 1024 \<le> rnd (b ^ nat e) then PosInfinity else Finite (rnd (b ^ nat e)))"
    using b e by (simp add: correctPow_nonneg round_double_pos [OF v])
  from rnd_band [OF v] have lo: "b ^ nat e - b ^ nat e / 2 ^ 53 \<le> rnd (b ^ nat e)"
    and hi: "rnd (b ^ nat e) \<le> b ^ nat e + b ^ nat e / 2 ^ 53" by simp_all
  show "approximates (correctPow b e) (b ^ nat e)"
  proof (cases "2 ^ 1024 \<le> rnd (b ^ nat e)")
    case True
    then have "2 ^ 1024 \<le> b ^ nat e + b ^ nat e / 2 ^ 53" using hi by linarith
    then have "2 ^ 1024 \<le> b ^ nat e * (1 + 1 / 2 ^ 52)" using v by (simp add: algebra_simps)
    with True val show ?thesis by (simp add: approximates_def)
  next
    case False
    have "\<bar>rnd (b ^ nat e) - b ^ nat e\<bar> \<le> b ^ nat e / 2 ^ 53" using v by (rule rnd_error)
    also have "\<dots> \<le> b ^ nat e / 2 ^ 52" using v by (simp add: field_simps)
    finally show ?thesis using False val by (simp add: approximates_def)
  qed
qed

lemma price_maxParticles_1: "getUpgradeCost correctPow ''maxParticles'' 1 = Finite 7"
  by (simp add: getUpgradeCost_def lookup_or_def baseCosts_def scaleFactor_def
      correctPow_nonneg round_double_def rnd_15_2)

lemma price_maxParticles_2: "getUpgradeCost correctPow ''maxParticles'' 2 = Finite 11"
  by (simp add: getUpgradeCost_def lookup_or_def baseCosts_def scaleFactor_def
      correctPow_nonneg round_double_def power_divide rnd_9_4 rnd_45_4)

lemma price_autoCollectors_38:
  "getUpgradeCost correctPow ''autoCollectors'' 38 = Finite 33087224502121108"
  by (simp add: getUpgradeCost_def lookup_or_def baseCosts_def scaleFactor_def
      correctPow_nonneg round_double_def rnd_pow38 rnd_price38)

text \<open>
  C5 (as the code has it). The price is \<open>Math.floor(baseCost * Math.pow(factor, L))\<close> in
  double arithmetic. For every upgrade id of the shop, every level \<open>L \<ge> 0\<close> and every
  accurate power function, the price at level \<open>L + 1\<close> is greater than the price at level
  \<open>L\<close> exactly when the price at level \<open>L\<close> is finite; a price is finite or
  \<^verbatim>\<open>Infinity\<close>. It is finite when the closed form \<open>baseCost * factor ^ L\<close> is below
  \<open>2 ^ 1024\<close> by more than the relative distance \<open>2 ^ - 51\<close>, and then it is an integer
  within that relative distance (and the floor) of the closed form; it is
  \<^verbatim>\<open>Infinity\<close> when the closed form is above \<open>2 ^ 1024\<close> by more than that. The
  closed forms are \<open>5 * 1.5 ^ L\<close> for \<open>maxParticles\<close> and \<open>25 * 2.5 ^ L\<close> for
  \<open>autoCollectors\<close>, whose prices are finite exactly up to level 1746 and up to level
  771.
\<close>

theorem getUpgradeCost_increasing_while_finite:
  assumes "pow_accurate pow" and "upgradeType \<in> set upgradeTypes" and "0 \<le> L"
  shows "(number_less (getUpgradeCost pow upgradeType L) (getUpgradeCost pow upgradeType (L + 1))
            \<longleftrightarrow> isFinite (getUpgradeCost pow upgradeType L))
     \<and> (isFinite (getUpgradeCost pow upgradeType L)
          \<or> getUpgradeCost pow upgradeType L = PosInfinity)
     \<and> (costFormula upgradeType L * (1 + 1 / 2 ^ 51) < 2 ^ 1024
          \<longrightarrow> isFinite (getUpgradeCost pow upgradeType L))
     \<and> (2 ^ 1024 \<le> costFormula upgradeType L * (1 - 1 / 2 ^ 51)
          \<longrightarrow> getUpgradeCost pow upgradeType L = PosInfinity)
     \<and> (isFinite (getUpgradeCost pow upgradeType L)
          \<longrightarrow> (\<exists>c. getUpgradeCost pow upgradeType L = Finite (of_int c)
                 \<and> costFormula upgradeType L * (1 - 1 / 2 ^ 51) - 1 < of_int c
                 \<and> of_int c \<le> costFormula upgradeType L * (1 + 1 / 2 ^ 51)))
     \<and> costFormula ''maxParticles'' L = 5 * (3 / 2) ^ nat L
     \<and> costFormula ''autoCollectors'' L = 25 * (5 / 2) ^ nat L
     \<and> (isFinite (getUpgradeCost pow ''maxParticles'' L) \<longleftrightarrow> L \<le> 1746)
     \<and> (isFinite (getUpgradeCost pow ''autoCollectors'' L) \<longleftrightarrow> L \<le> 771)"
proof -
  note acc = assms(1) and L = assms(3)
  have 1: "number_less (getUpgradeCost pow upgradeType L) (getUpgradeCost pow upgradeType (L + 1))
            \<longleftrightarrow> isFinite (getUpgradeCost pow upgradeType L)"
    using acc L by (rule getUpgradeCost_step)
  have 2: "isFinite (getUpgradeCost pow upgradeType L)
          \<or> getUpgradeCost pow upgradeType L = PosInfinity"
    using acc L by (rule getUpgradeCost_total)
  have 3: "costFormula upgradeType L * (1 + 1 / 2 ^ 51) < 2 ^ 1024
          \<longrightarrow> isFinite (getUpgradeCost pow upgradeType L)"
    using getUpgradeCost_finite [OF acc L] by blast
  have 4: "2 ^ 1024 \<le> costFormula upgradeType L * (1 - 1 / 2 ^ 51)
          \<longrightarrow> getUpgradeCost pow upgradeType L = PosInfinity"
    using getUpgradeCost_infinite [OF acc L] by blast
  have 5: "isFinite (getUpgradeCost pow upgradeType L)
          \<longrightarrow> (\<exists>c. getUpgradeCost pow upgradeType L = Finite (of_int c)
                 \<and> costFormula upgradeType L * (1 - 1 / 2 ^ 51) - 1 < of_int c
                 \<and> of_int c \<le> costFormula upgradeType L * (1 + 1 / 2 ^ 51))"
    using getUpgradeCost_close [OF acc L] by blast
  have 6: "isFinite (getUpgradeCost pow ''maxParticles'' L) \<longleftrightarrow> L \<le> 1746"
    using acc L by (rule maxParticles_finite)
  have 7: "isFinite (getUpgradeCost pow ''autoCollectors'' L) \<longleftrightarrow> L \<le> 771"
    using acc L by (rule autoCollectors_finite)
  show ?thesis
    apply (intro conjI)
            apply (rule 1)
           apply (rule 2)
          apply (rule 3)
         apply (rule 4)
        apply (rule 5)
       apply (rule costFormula_maxParticles)
      apply (rule costFormula_autoCollectors)
     apply (rule 6)
    apply (rule 7)
    done
qed

theorem getUpgradeCost_increasing_while_finite_witness:
  "''maxParticles'' \<in> set upgradeTypes \<and> (0::int) \<le> 1
     \<and> getUpgradeCost correctPow ''maxParticles'' 1 = Finite 7
     \<and> getUpgradeCost correctPow ''maxParticles'' (1 + 1) = Finite 11
     \<and> number_less (getUpgradeCost correctPow ''maxParticles'' 1)
          (getUpgradeCost correctPow ''maxParticles'' (1 + 1))
     \<and> isFinite (getUpgradeCost correctPow ''maxParticles'' 1)
     \<and> isFinite (getUpgradeCost correctPow ''autoCollectors'' 1)"
proof -
  have m: "''maxParticles'' \<in> set upgradeTypes" by (simp add: upgradeTypes_def)
  have L: "(0::int) \<le> 1" by simp
  note t = getUpgradeCost_increasing_while_finite [OF correctPow_accurate m L]
  from t have a: "number_less (getUpgradeCost correctPow ''maxParticles'' 1)
      (getUpgradeCost correctPow ''maxParticles'' (1 + 1))
      \<longleftrightarrow> isFinite (getUpgradeCost correctPow ''maxParticles'' 1)"
    by blast
  from t have b: "isFinite (getUpgradeCost correctPow ''maxParticles'' 1) \<longleftrightarrow> (1::int) \<le> 1746"
    by blast
  from t have c: "isFinite (getUpgradeCost correctPow ''autoCollectors'' 1) \<longleftrightarrow> (1::int) \<le> 771"
    by blast
  have two: "getUpgradeCost correctPow ''maxParticles'' (1 + 1) = Finite 11"
    using price_maxParticles_2 by simp
  from b have b': "isFinite (getUpgradeCost correctPow ''maxParticles'' 1)" by simp
  from c have c': "isFinite (getUpgradeCost correctPow ''autoCollectors'' 1)" by simp
  from a b' have a': "number_less (getUpgradeCost correctPow ''maxParticles'' 1)
      (getUpgradeCost correctPow ''maxParticles'' (1 + 1))" by simp
  show ?thesis
    using m a' b' c' two price_maxParticles_1 by simp
qed

text \<open>
  With the correctly rounded power function the price of \<open>autoCollectors\<close> is
  \<^verbatim>\<open>Infinity\<close> at level 772 and at level 773, so it does not increase there; and at
  level 38 the price differs from the floor of the closed form.
\<close>

theorem getUpgradeCost_not_increasing:
  "getUpgradeCost correctPow ''autoCollectors'' 772 = PosInfinity
   \<and> getUpgradeCost correctPow ''autoCollectors'' (772 + 1) = PosInfinity
   \<and> \<not> number_less (getUpgradeCost correctPow ''autoCollectors'' 772)
          (getUpgradeCost correctPow ''autoCollectors'' (772 + 1))
   \<and> getUpgradeCost correctPow ''autoCollectors'' 38 = Finite 33087224502121108
   \<and> \<lfloor>25 * (5 / 2 :: real) ^ 38\<rfloor> = 33087224502121106"
proof -
  have a: "\<not> isFinite (getUpgradeCost correctPow ''autoCollectors'' 772)"
    using autoCollectors_finite [OF correctPow_accurate, of 772] by simp
  have b: "\<not> isFinite (getUpgradeCost correctPow ''autoCollectors'' (772 + 1))"
    using autoCollectors_finite [OF correctPow_accurate, of "772 + 1"] by simp
  from a getUpgradeCost_total [OF correctPow_accurate, of 772 "''autoCollectors''"]
  have a': "getUpgradeCost correctPow ''autoCollectors'' 772 = PosInfinity" by simp
  from b getUpgradeCost_total [OF correctPow_accurate, of "772 + 1" "''autoCollectors''"]
  have b': "getUpgradeCost correctPow ''autoCollectors'' (772 + 1) = PosInfinity" by simp
  have c: "\<lfloor>25 * (5 / 2 :: real) ^ 38\<rfloor> = 33087224502121106"
    by (simp add: power_divide)
  show ?thesis
    using a' b' c price_autoCollectors_38 by simp
qed

section \<open>Properties of the population initializer\<close>

lemma createParticle_length:
  "length (particlesRef (createParticle pf gs cv i st)) = Suc (length (particlesRef st))"
  by (simp add: createParticle_def Math_random_def Let_def)

lemma createParticle_randomCalls:
  "randomCalls (createParticle pf gs cv i st) = randomCalls st + 8"
  by (simp add: createParticle_def Math_random_def Let_def)

lemma createParticle_old:
  "take (length (particlesRef st)) (particlesRef (createParticle pf gs cv i st)) = particlesRef st"
  by (simp add: createParticle_def Math_random_def Let_def)

lemma createParticle_new:
  "randomCalls st = randomCalls st' \<Longrightarrow>
   drop (length (particlesRef st)) (particlesRef (createParticle pf gs cv i st))
   = drop (length (particlesRef st')) (particlesRef (createParticle pf gs cv i st'))"
  by (simp add: createParticle_def Math_random_def Let_def)

lemma createParticle_flags:
  "isTarget (particlesRef (createParticle pf gs cv i st) ! length (particlesRef st)) = Some (i < 3)"
  "isCollector (particlesRef (createParticle pf gs cv i st) ! length (particlesRef st))
     = Some (i < autoCollectors (upgrades gs))"
  "behavior (particlesRef (createParticle pf gs cv i st) ! length (particlesRef st))
     = (if i < autoCollectors (upgrades gs) then collector
        else if i mod 10 = 0 \<and> autonomyLevel (upgrades gs) > 2 then seeker
        else if i mod 15 = 0 \<and> autonomyLevel (upgrades gs) > 3 then avoider
        else normal)"
  by (simp_all add: createParticle_def Math_random_def Let_def)

lemma createParticle_rest:
  "gameState (createParticle pf gs cv i st) = gameState st"
  "showScore (createParticle pf gs cv i st) = showScore st"
  "showHint (createParticle pf gs cv i st) = showHint st"
  "canvasSizeRef (createParticle pf gs cv i st) = canvasSizeRef st"
  "targetCollectedTimeRef (createParticle pf gs cv i st) = targetCollectedTimeRef st"
  "interactionStartTimeRef (createParticle pf gs cv i st) = interactionStartTimeRef st"
  "scaledMousePosRef (createParticle pf gs cv i st) = scaledMousePosRef st"
  "clockCalls (createParticle pf gs cv i st) = clockCalls st"
  by (simp_all add: createParticle_def Math_random_def Let_def)

lemma initLoop_length:
  "length (particlesRef (initLoop pf gs cv n i st)) = length (particlesRef st) + nat (n - i)"
proof (induction pf gs cv n i st rule: initLoop.induct)
  case (1 pf gs cv n i st)
  show ?case
  proof (cases "i < n")
    case True
    have "nat (n - i) = Suc (nat (n - (i + 1)))" using True by simp
    with 1 True show ?thesis
      by (subst initLoop.simps) (simp add: createParticle_length)
  next
    case False
    then show ?thesis by (subst initLoop.simps) simp
  qed
qed

lemma initLoop_old:
  "take (length (particlesRef st)) (particlesRef (initLoop pf gs cv n i st)) = particlesRef st"
proof (induction pf gs cv n i st rule: initLoop.induct)
  case (1 pf gs cv n i st)
  show ?case
  proof (cases "i < n")
    case True
    let ?c = "createParticle pf gs cv i st"
    let ?r = "particlesRef (initLoop pf gs cv n (i + 1) ?c)"
    have ih: "take (length (particlesRef ?c)) ?r = particlesRef ?c"
      using 1 True by simp
    have "take (length (particlesRef st)) ?r
        = take (length (particlesRef st)) (take (length (particlesRef ?c)) ?r)"
      by (simp add: createParticle_length min_def)
    also have "\<dots> = particlesRef st"
      by (simp only: ih createParticle_old)
    finally show ?thesis using True by (subst initLoop.simps) simp
  next
    case False
    then show ?thesis by (subst initLoop.simps) simp
  qed
qed

lemma initLoop_new:
  "randomCalls st = randomCalls st' \<Longrightarrow>
   drop (length (particlesRef st)) (particlesRef (initLoop pf gs cv n i st))
   = drop (length (particlesRef st')) (particlesRef (initLoop pf gs cv n i st'))"
proof (induction pf gs cv n i st arbitrary: st' rule: initLoop.induct)
  case (1 pf gs cv n i st)
  show ?case
  proof (cases "i < n")
    case True
    let ?c = "createParticle pf gs cv i st"
    let ?c' = "createParticle pf gs cv i st'"
    let ?r = "particlesRef (initLoop pf gs cv n (i + 1) ?c)"
    let ?r' = "particlesRef (initLoop pf gs cv n (i + 1) ?c')"
    have rc: "randomCalls ?c = randomCalls ?c'"
      using "1.prems" by (simp add: createParticle_randomCalls)
    have ih: "drop (length (particlesRef ?c)) ?r = drop (length (particlesRef ?c')) ?r'"
      using "1.IH" [OF True rc] .
    have split: "\<And>s. drop (length (particlesRef s)) (particlesRef (initLoop pf gs cv n (i + 1) (createParticle pf gs cv i s)))
        = drop (length (particlesRef s)) (particlesRef (createParticle pf gs cv i s))
          @ drop (length (particlesRef (createParticle pf gs cv i s)))
              (particlesRef (initLoop pf gs cv n (i + 1) (createParticle pf gs cv i s)))"
    proof -
      fix s
      let ?d = "createParticle pf gs cv i s"
      let ?q = "particlesRef (initLoop pf gs cv n (i + 1) ?d)"
      have "?q = take (length (particlesRef ?d)) ?q @ drop (length (particlesRef ?d)) ?q"
        by simp
      then have "?q = particlesRef ?d @ drop (length (particlesRef ?d)) ?q"
        by (simp only: initLoop_old)
      then have "drop (length (particlesRef s)) ?q
          = drop (length (particlesRef s)) (particlesRef ?d @ drop (length (particlesRef ?d)) ?q)"
        by simp
      then show "drop (length (particlesRef s)) ?q
          = drop (length (particlesRef s)) (particlesRef ?d) @ drop (length (particlesRef ?d)) ?q"
        by (simp add: createParticle_length)
    qed
    have "drop (length (particlesRef st)) ?r = drop (length (particlesRef st')) ?r'"
      by (simp only: split [of st] split [of st'] ih createParticle_new [OF "1.prems"])
    then show ?thesis using True by (subst initLoop.simps, subst (2) initLoop.simps) simp
  next
    case False
    then show ?thesis by (subst initLoop.simps, subst (2) initLoop.simps) simp
  qed
qed

lemma initLoop_rest:
  "gameState (initLoop pf gs cv n i st) = gameState st
   \<and> showScore (initLoop pf gs cv n i st) = showScore st
   \<and> showHint (initLoop pf gs cv n i st) = showHint st
   \<and> canvasSizeRef (initLoop pf gs cv n i st) = canvasSizeRef st
   \<and> targetCollectedTimeRef (initLoop pf gs cv n i st) = targetCollectedTimeRef st
   \<and> interactionStartTimeRef (initLoop pf gs cv n i st) = interactionStartTimeRef st
   \<and> scaledMousePosRef (initLoop pf gs cv n i st) = scaledMousePosRef st
   \<and> clockCalls (initLoop pf gs cv n i st) = clockCalls st"
proof (induction pf gs cv n i st rule: initLoop.induct)
  case (1 pf gs cv n i st)
  show ?case
  proof (cases "i < n")
    case True
    with 1 show ?thesis
      by (subst (1 2 3 4 5 6 7 8) initLoop.simps) (simp add: createParticle_rest)
  next
    case False
    then show ?thesis by (subst (1 2 3 4 5 6 7 8) initLoop.simps) simp
  qed
qed

lemma initLoop_flags:
  "j < nat (n - i) \<Longrightarrow>
   isTarget (particlesRef (initLoop pf gs cv n i st) ! (length (particlesRef st) + j))
     = Some (i + int j < 3)
   \<and> isCollector (particlesRef (initLoop pf gs cv n i st) ! (length (particlesRef st) + j))
     = Some (i + int j < autoCollectors (upgrades gs))
   \<and> behavior (particlesRef (initLoop pf gs cv n i st) ! (length (particlesRef st) + j))
     = (if i + int j < autoCollectors (upgrades gs) then collector
        else if (i + int j) mod 10 = 0 \<and> autonomyLevel (upgrades gs) > 2 then seeker
        else if (i + int j) mod 15 = 0 \<and> autonomyLevel (upgrades gs) > 3 then avoider
        else normal)"
proof (induction pf gs cv n i st arbitrary: j rule: initLoop.induct)
  case (1 pf gs cv n i st)
  from "1.prems" have lt: "i < n" by simp
  let ?c = "createParticle pf gs cv i st"
  let ?r = "particlesRef (initLoop pf gs cv n (i + 1) ?c)"
  have unfold: "particlesRef (initLoop pf gs cv n i st) = ?r"
    using lt by (subst initLoop.simps) simp
  show ?case
  proof (cases j)
    case 0
    have "?r ! length (particlesRef st) = take (length (particlesRef ?c)) ?r ! length (particlesRef st)"
      by (simp add: createParticle_length)
    also have "\<dots> = particlesRef ?c ! length (particlesRef st)"
      by (simp only: initLoop_old)
    finally show ?thesis
      using 0 by (simp only: unfold) (simp add: createParticle_flags)
  next
    case (Suc k)
    have k: "k < nat (n - (i + 1))" using "1.prems" Suc by simp
    have idx: "length (particlesRef st) + j = length (particlesRef ?c) + k"
      using Suc by (simp add: createParticle_length)
    have shift: "i + int j = i + 1 + int k" using Suc by simp
    show ?thesis
      using "1.IH" [OF lt k] by (simp only: unfold idx shift)
  qed
qed

lemma initParticles_forgets:
  "particlesRef (initParticles pf options gs (st\<lparr>particlesRef := ps\<rparr>))
   = particlesRef (initParticles pf options gs st)"
  by (simp add: initParticles_def)

lemma initParticles_gameState_indep:
  "particlesRef (initParticles pf options gs (st\<lparr>gameState := g\<rparr>))
   = particlesRef (initParticles pf options gs st)"
proof (cases "canvas pf")
  case None
  then show ?thesis by (simp add: initParticles_def)
next
  case (Some cv)
  have "drop (length (particlesRef (st\<lparr>gameState := g, particlesRef := []\<rparr>)))
          (particlesRef (initLoop pf gs cv (actualMaxParticles options gs) 0 (st\<lparr>gameState := g, particlesRef := []\<rparr>)))
      = drop (length (particlesRef (st\<lparr>particlesRef := []\<rparr>)))
          (particlesRef (initLoop pf gs cv (actualMaxParticles options gs) 0 (st\<lparr>particlesRef := []\<rparr>)))"
    by (rule initLoop_new) simp
  with Some show ?thesis by (simp add: initParticles_def)
qed

lemma initParticles_gameState:
  "gameState (initParticles pf options gs st) = gameState st"
  by (cases "canvas pf") (simp_all add: initParticles_def initLoop_rest)

lemma initParticles_length:
  "canvas pf = Some cv \<Longrightarrow>
   length (particlesRef (initParticles pf options gs st)) = nat (actualMaxParticles options gs)"
  by (simp add: initParticles_def initLoop_length)

lemma initParticles_no_canvas:
  "canvas pf = None \<Longrightarrow> particlesRef (initParticles pf options gs st) = []"
  by (simp add: initParticles_def)

lemma initParticles_flags:
  assumes "canvas pf = Some cv" and "k < nat (actualMaxParticles options gs)"
  shows "isTarget (particlesRef (initParticles pf options gs st) ! k) = Some (int k < 3)"
    and "isCollector (particlesRef (initParticles pf options gs st) ! k)
           = Some (int k < autoCollectors (upgrades gs))"
  using assms initLoop_flags [of k "actualMaxParticles options gs" 0 pf gs cv "st\<lparr>particlesRef := []\<rparr>"]
  by (simp_all add: initParticles_def)

text \<open>The initializer of the variant without upgrades.\<close>

lemma simpleCreateParticle_length:
  "length (simpleParticlesRef (simpleCreateParticle pf cv i st)) = Suc (length (simpleParticlesRef st))"
  by (simp add: simpleCreateParticle_def simpleRandom_def Let_def)

lemma simpleCreateParticle_old:
  "take (length (simpleParticlesRef st)) (simpleParticlesRef (simpleCreateParticle pf cv i st))
   = simpleParticlesRef st"
  by (simp add: simpleCreateParticle_def simpleRandom_def Let_def)

lemma simpleCreateParticle_flag:
  "isTarget (simpleParticlesRef (simpleCreateParticle pf cv i st) ! length (simpleParticlesRef st))
   = Some (i < 3)"
  by (simp add: simpleCreateParticle_def simpleRandom_def Let_def)

lemma simpleInitLoop_length:
  "length (simpleParticlesRef (simpleInitLoop pf cv n i st))
   = length (simpleParticlesRef st) + nat (n - i)"
proof (induction pf cv n i st rule: simpleInitLoop.induct)
  case (1 pf cv n i st)
  show ?case
  proof (cases "i < n")
    case True
    have "nat (n - i) = Suc (nat (n - (i + 1)))" using True by simp
    with 1 True show ?thesis
      by (subst simpleInitLoop.simps) (simp add: simpleCreateParticle_length)
  next
    case False
    then show ?thesis by (subst simpleInitLoop.simps) simp
  qed
qed

lemma simpleInitLoop_old:
  "take (length (simpleParticlesRef st)) (simpleParticlesRef (simpleInitLoop pf cv n i st))
   = simpleParticlesRef st"
proof (induction pf cv n i st rule: simpleInitLoop.induct)
  case (1 pf cv n i st)
  show ?case
  proof (cases "i < n")
    case True
    let ?c = "simpleCreateParticle pf cv i st"
    let ?r = "simpleParticlesRef (simpleInitLoop pf cv n (i + 1) ?c)"
    have ih: "take (length (simpleParticlesRef ?c)) ?r = simpleParticlesRef ?c"
      using 1 True by simp
    have "take (length (simpleParticlesRef st)) ?r
        = take (length (simpleParticlesRef st)) (take (length (simpleParticlesRef ?c)) ?r)"
      by (simp add: simpleCreateParticle_length min_def)
    also have "\<dots> = simpleParticlesRef st"
      by (simp only: ih simpleCreateParticle_old)
    finally show ?thesis using True by (subst simpleInitLoop.simps) simp
  next
    case False
    then show ?thesis by (subst simpleInitLoop.simps) simp
  qed
qed

lemma simpleInitLoop_flags:
  "j < nat (n - i) \<Longrightarrow>
   isTarget (simpleParticlesRef (simpleInitLoop pf cv n i st) ! (length (simpleParticlesRef st) + j))
     = Some (i + int j < 3)"
proof (induction pf cv n i st arbitrary: j rule: simpleInitLoop.induct)
  case (1 pf cv n i st)
  from "1.prems" have lt: "i < n" by simp
  let ?c = "simpleCreateParticle pf cv i st"
  let ?r = "simpleParticlesRef (simpleInitLoop pf cv n (i + 1) ?c)"
  have unfold: "simpleParticlesRef (simpleInitLoop pf cv n i st) = ?r"
    using lt by (subst simpleInitLoop.simps) simp
  show ?case
  proof (cases j)
    case 0
    have "?r ! length (simpleParticlesRef st)
        = take (length (simpleParticlesRef ?c)) ?r ! length (simpleParticlesRef st)"
      by (simp add: simpleCreateParticle_length)
    also have "\<dots> = simpleParticlesRef ?c ! length (simpleParticlesRef st)"
      by (simp only: simpleInitLoop_old)
    finally show ?thesis
      using 0 by (simp only: unfold) (simp add: simpleCreateParticle_flag)
  next
    case (Suc k)
    have k: "k < nat (n - (i + 1))" using "1.prems" Suc by simp
    have idx: "length (simpleParticlesRef st) + j = length (simpleParticlesRef ?c) + k"
      using Suc by (simp add: simpleCreateParticle_length)
    have shift: "i + int j = i + 1 + int k" using Suc by simp
    show ?thesis
      using "1.IH" [OF lt k] by (simp only: unfold idx shift)
  qed
qed

lemma simpleInitParticles_length:
  "canvas pf = Some cv \<Longrightarrow>
   length (simpleParticlesRef (simpleInitParticles pf options st)) = nat (maxParticlesOf options)"
  by (simp add: simpleInitParticles_def simpleInitLoop_length)

lemma simpleInitParticles_flags:
  assumes "canvas pf = Some cv" and "k < nat (maxParticlesOf options)"
  shows "isTarget (simpleParticlesRef (simpleInitParticles pf options st) ! k) = Some (int k < 3)"
  using assms
    simpleInitLoop_flags [of k "maxParticlesOf options" 0 pf cv "st\<lparr>simpleParticlesRef := []\<rparr>"]
  by (simp add: simpleInitParticles_def)

text \<open>The particle count of the variant with upgrades, in double arithmetic.\<close>

lemma actualMax_sample:
  "maxParticles (upgrades gs) = 1 \<Longrightarrow> actualMaxParticles canvasOptions gs = 72"
  by (simp add: actualMaxParticles_def canvasOptions_def maxParticlesOf_def
      rnd_1_5th rnd_level1 rnd_scale1 rnd_count_60_1)

lemma actualMax_level2:
  "maxParticles (upgrades gs) = 2 \<Longrightarrow> actualMaxParticles canvasOptions gs = 84"
  by (simp add: actualMaxParticles_def canvasOptions_def maxParticlesOf_def
      rnd_1_5th rnd_level2 rnd_scale2 rnd_count_60_2)

lemma actualMax_rounds_down:
  "maxParticlesOf options = 45 \<Longrightarrow> maxParticles (upgrades gs) = 2 \<Longrightarrow>
   actualMaxParticles options gs = 62 \<and> \<lfloor>45 * (1 + 2 * 0.2 :: real)\<rfloor> = 63"
  by (simp add: actualMaxParticles_def rnd_1_5th rnd_level2 rnd_scale2 rnd_count_45_2)

section \<open>Properties of the purchase\<close>

lemma getUpgrade_setUpgrade: "getUpgrade (setUpgrade u k v) k = v"
  by (cases k) simp_all

lemma getUpgrade_setUpgrade_other: "k' \<noteq> k \<Longrightarrow> getUpgrade (setUpgrade u k v) k' = getUpgrade u k'"
  by (cases k; cases k') simp_all

lemma purchaseUpgrade_particles:
  "particlesRef (purchaseUpgrade pf options gs upgradeType cost st)
   = particlesRef (initParticles pf options gs st)"
  by (simp add: purchaseUpgrade_def Let_def initParticles_gameState_indep)

lemma purchaseUpgrade_gameState:
  "gameState (purchaseUpgrade pf options gs upgradeType cost st)
   = (if currency (gameState st) < cost then gameState st
      else (gameState st)\<lparr>currency := currency (gameState st) - cost,
             upgrades := setUpgrade (upgrades (gameState st)) upgradeType
                           (getUpgrade (upgrades (gameState st)) upgradeType + 1)\<rparr>)"
  by (simp add: purchaseUpgrade_def Let_def initParticles_gameState)

section \<open>The purchase contract\<close>

text \<open>
  A purchase request whose cost the current currency covers leaves a game state with the
  currency lowered by the cost and the named upgrade level raised by one (every other
  field as before), and the particle population is rebuilt from scratch: it is what
  \<open>initParticles\<close> builds on an empty population, so nothing of the old one survives, and
  with a canvas it has \<open>actualMaxParticles\<close> members. The rebuild reads the game state
  \<open>gs\<close> that the closure captured, not the game state the purchase leaves.
\<close>

lemma purchaseUpgrade_accepted:
  assumes "cost \<le> currency (gameState st)"
  shows "currency (gameState (purchaseUpgrade pf options gs upgradeType cost st))
           = currency (gameState st) - cost
     \<and> getUpgrade (upgrades (gameState (purchaseUpgrade pf options gs upgradeType cost st))) upgradeType
           = getUpgrade (upgrades (gameState st)) upgradeType + 1
     \<and> gameState (purchaseUpgrade pf options gs upgradeType cost st)
           = (gameState st)\<lparr>currency := currency (gameState st) - cost,
                upgrades := setUpgrade (upgrades (gameState st)) upgradeType
                              (getUpgrade (upgrades (gameState st)) upgradeType + 1)\<rparr>
     \<and> particlesRef (purchaseUpgrade pf options gs upgradeType cost st)
           = particlesRef (initParticles pf options gs (st\<lparr>particlesRef := []\<rparr>))
     \<and> (canvas pf \<noteq> None \<longrightarrow>
          length (particlesRef (purchaseUpgrade pf options gs upgradeType cost st))
            = nat (actualMaxParticles options gs))"
proof -
  have not_lt: "\<not> currency (gameState st) < cost" using assms by simp
  have len: "canvas pf \<noteq> None \<longrightarrow>
      length (particlesRef (initParticles pf options gs st)) = nat (actualMaxParticles options gs)"
    by (auto simp: initParticles_length)
  show ?thesis
    using not_lt len
    by (simp add: purchaseUpgrade_gameState purchaseUpgrade_particles getUpgrade_setUpgrade
        initParticles_forgets)
qed

text \<open>
  C1 (what the code does). A purchase that the currency covers does lower the currency
  by the cost and raise the level by one, but the population it rebuilds is not the one
  of the new level. \<open>purchaseUpgrade\<close> calls \<open>initParticles\<close> in the closure of the render
  that made the handler, and the game state of that closure is the one from before the
  purchase. With the options of \<^verbatim>\<open>ParticleCanvas\<close> (60 particles at the base) and 5
  units of currency, buying \<open>maxParticles\<close> at level 1 for 5 leaves the currency at 0 and
  the level at 2, and a population of 72 particles, which is the count of level 1.
  Level 2 calls for 84 particles, and 84 is what \<open>initParticles\<close> builds once it reads
  the game state that the purchase left.
\<close>

theorem purchaseUpgrade_rebuilds_for_old_level:
  "currency (gameState richEngine) = 5
   \<and> maxParticles (upgrades (gameState richEngine)) = 1
   \<and> currency (gameState (purchaseUpgrade samplePlatform canvasOptions (gameState richEngine)
        K_maxParticles 5 richEngine)) = 0
   \<and> maxParticles (upgrades (gameState (purchaseUpgrade samplePlatform canvasOptions
        (gameState richEngine) K_maxParticles 5 richEngine))) = 2
   \<and> length (particlesRef (purchaseUpgrade samplePlatform canvasOptions (gameState richEngine)
        K_maxParticles 5 richEngine)) = 72
   \<and> actualMaxParticles canvasOptions (gameState (purchaseUpgrade samplePlatform canvasOptions
        (gameState richEngine) K_maxParticles 5 richEngine)) = 84
   \<and> length (particlesRef (initParticles samplePlatform canvasOptions
        (gameState (purchaseUpgrade samplePlatform canvasOptions (gameState richEngine)
           K_maxParticles 5 richEngine))
        (purchaseUpgrade samplePlatform canvasOptions (gameState richEngine)
           K_maxParticles 5 richEngine))) = 84"
proof -
  let ?st' = "purchaseUpgrade samplePlatform canvasOptions (gameState richEngine)
      K_maxParticles 5 richEngine"
  have gs: "gameState richEngine = (initialGameState 0)\<lparr>currency := 5\<rparr>"
    by (simp add: richEngine_def)
  have c: "currency (gameState richEngine) = 5"
    by (simp add: gs)
  have m: "maxParticles (upgrades (gameState richEngine)) = 1"
    by (simp add: gs initialGameState_def)
  have cv: "canvas samplePlatform = Some (800, 600)"
    by (simp add: samplePlatform_def)
  have gs': "gameState ?st' = (gameState richEngine)\<lparr>currency := 0,
      upgrades := (upgrades (gameState richEngine))\<lparr>maxParticles := 2\<rparr>\<rparr>"
    by (simp add: purchaseUpgrade_gameState c m)
  have c': "currency (gameState ?st') = 0"
    by (simp add: gs')
  have m': "maxParticles (upgrades (gameState ?st')) = 2"
    by (simp add: gs')
  have len: "length (particlesRef ?st') = 72"
    by (simp add: purchaseUpgrade_particles initParticles_length [OF cv] actualMax_sample [OF m])
  have am: "actualMaxParticles canvasOptions (gameState ?st') = 84"
    by (rule actualMax_level2 [OF m'])
  have len': "length (particlesRef (initParticles samplePlatform canvasOptions (gameState ?st') ?st'))
      = 84"
    by (simp add: initParticles_length [OF cv] am)
  show ?thesis
    using c m c' m' len am len' by blast
qed

text \<open>
  C2. A purchase request whose cost exceeds the current currency is rejected: the game
  state (currency, upgrade levels and every other field) stays as it was.
\<close>

theorem purchaseUpgrade_rejected:
  "currency (gameState st) < cost \<Longrightarrow>
   gameState (purchaseUpgrade pf options gs upgradeType cost st) = gameState st"
  by (simp add: purchaseUpgrade_gameState)

theorem purchaseUpgrade_rejected_witness:
  "currency (gameState poorEngine) < 5
   \<and> gameState (purchaseUpgrade samplePlatform canvasOptions (gameState poorEngine)
        K_maxParticles 5 poorEngine) = gameState poorEngine
   \<and> currency (gameState (purchaseUpgrade samplePlatform canvasOptions (gameState poorEngine)
        K_maxParticles 5 poorEngine)) = 4
   \<and> maxParticles (upgrades (gameState (purchaseUpgrade samplePlatform canvasOptions
        (gameState poorEngine) K_maxParticles 5 poorEngine))) = 1"
  using purchaseUpgrade_rejected [of poorEngine 5 samplePlatform canvasOptions
      "gameState poorEngine" K_maxParticles]
  by (simp add: poorEngine_def sampleEngine_def mountEngine_def initialGameState_def)

text \<open>
  C10. \<open>initParticles\<close> runs after every purchase request, accepted or not: the resulting
  population is always the freshly built one, and a rejected purchase is the same as
  running \<open>initParticles\<close> alone, which discards the existing population.
\<close>

theorem purchaseUpgrade_always_reinitializes:
  "particlesRef (purchaseUpgrade pf options gs upgradeType cost st)
     = particlesRef (initParticles pf options gs (st\<lparr>particlesRef := []\<rparr>))
   \<and> (currency (gameState st) < cost \<longrightarrow>
        purchaseUpgrade pf options gs upgradeType cost st = initParticles pf options gs st)"
  by (simp add: purchaseUpgrade_particles initParticles_forgets)
     (simp add: purchaseUpgrade_def Let_def)

theorem purchaseUpgrade_always_reinitializes_witness:
  "currency (gameState poorEngine) < 5
   \<and> purchaseUpgrade samplePlatform canvasOptions (gameState poorEngine) K_maxParticles 5 poorEngine
       = initParticles samplePlatform canvasOptions (gameState poorEngine) poorEngine
   \<and> length (particlesRef poorEngine) = 1
   \<and> length (particlesRef (purchaseUpgrade samplePlatform canvasOptions (gameState poorEngine)
        K_maxParticles 5 poorEngine)) = 72"
proof -
  have c: "currency (gameState poorEngine) < 5"
    by (simp add: poorEngine_def)
  have m: "maxParticles (upgrades (gameState poorEngine)) = 1"
    by (simp add: poorEngine_def initialGameState_def)
  have cv: "canvas samplePlatform = Some (800, 600)"
    by (simp add: samplePlatform_def)
  have len: "length (particlesRef (initParticles samplePlatform canvasOptions
      (gameState poorEngine) poorEngine)) = 72"
    by (simp add: initParticles_length [OF cv] actualMax_sample [OF m])
  have old: "length (particlesRef poorEngine) = 1"
    by (simp add: poorEngine_def sampleEngine_def)
  from purchaseUpgrade_always_reinitializes [of samplePlatform canvasOptions
      "gameState poorEngine" K_maxParticles 5 poorEngine] c
  have eq: "purchaseUpgrade samplePlatform canvasOptions (gameState poorEngine) K_maxParticles 5
      poorEngine = initParticles samplePlatform canvasOptions (gameState poorEngine) poorEngine"
    by blast
  show ?thesis using c old len by (simp add: eq)
qed

section \<open>The collection contract\<close>



section \<open>The initial population\<close>

text \<open>
  C7 (as the code has it). With a canvas, the \<open>initParticles\<close> of the variant with
  upgrades produces \<open>Math.floor(baseMax * (1 + upgrades.maxParticles * 0.2))\<close> particles,
  the literal, the two products and the sum each rounded to a double (\<open>baseMax\<close> and the
  level being integers that a double holds, of magnitude at most \<open>2 ^ 53\<close>). For \<open>baseMax = 60\<close>
  and the default upgrades (\<open>maxParticles\<close> at level 1, \<open>autoCollectors\<close> at 0) that is
  exactly 72 particles, of which those at indices 0, 1 and 2 are targets and none is a
  collector; for \<open>baseMax = 45\<close> at level 2 it is 62 particles, one less than the floor
  of the exact product. The \<open>initParticles\<close> of the variant without upgrades produces
  exactly \<open>maxParticles\<close> particles, 60 for \<open>maxParticles = 60\<close>, and again those at
  indices 0, 1 and 2 are its targets.
\<close>

theorem initParticles_population:
  assumes cv: "canvas pf = Some cv"
    and base: "\<bar>maxParticlesOf options\<bar> \<le> 2 ^ 53"
    and lvl: "\<bar>maxParticles (upgrades gs)\<bar> \<le> 2 ^ 53"
  shows "length (particlesRef (initParticles pf options gs st))
           = nat \<lfloor>rnd (real_of_int (maxParticlesOf options)
                  * rnd (1 + rnd (real_of_int (maxParticles (upgrades gs)) * rnd 0.2)))\<rfloor>
     \<and> (maxParticlesOf options = 60 \<and> upgrades gs = upgrades (initialGameState t) \<longrightarrow>
          length (particlesRef (initParticles pf options gs st)) = 72
          \<and> (\<forall>k<72. isTarget (particlesRef (initParticles pf options gs st) ! k) = Some (k < 3))
          \<and> (\<forall>k<72. isCollector (particlesRef (initParticles pf options gs st) ! k) = Some False))
     \<and> (maxParticlesOf options = 45 \<and> maxParticles (upgrades gs) = 2 \<longrightarrow>
          length (particlesRef (initParticles pf options gs st)) = 62)
     \<and> length (simpleParticlesRef (simpleInitParticles pf options sst))
           = nat (maxParticlesOf options)
     \<and> (\<forall>k < nat (maxParticlesOf options).
          isTarget (simpleParticlesRef (simpleInitParticles pf options sst) ! k) = Some (k < 3))
     \<and> (maxParticlesOf options = 60 \<longrightarrow>
          length (simpleParticlesRef (simpleInitParticles pf options sst)) = 60)"
proof -
  have len: "length (particlesRef (initParticles pf options gs st))
      = nat (actualMaxParticles options gs)"
    by (rule initParticles_length [OF cv])
  have fresh: "length (particlesRef (initParticles pf options gs st)) = 72
          \<and> (\<forall>k<72. isTarget (particlesRef (initParticles pf options gs st) ! k) = Some (k < 3))
          \<and> (\<forall>k<72. isCollector (particlesRef (initParticles pf options gs st) ! k) = Some False)"
    if m: "maxParticlesOf options = 60" and u: "upgrades gs = upgrades (initialGameState t)"
  proof -
    have am: "actualMaxParticles options gs = 72"
      by (simp add: actualMaxParticles_def m u initialGameState_def
          rnd_1_5th rnd_level1 rnd_scale1 rnd_count_60_1)
    have ac: "autoCollectors (upgrades gs) = 0"
      by (simp add: u initialGameState_def)
    have flags: "isTarget (particlesRef (initParticles pf options gs st) ! k) = Some (k < 3)
        \<and> isCollector (particlesRef (initParticles pf options gs st) ! k) = Some False"
      if "k < 72" for k
    proof -
      have k: "k < nat (actualMaxParticles options gs)" using that by (simp add: am)
      show ?thesis
        using initParticles_flags [OF cv k, of st] by (simp add: ac)
    qed
    show ?thesis using len flags by (simp add: am)
  qed
  have down: "length (particlesRef (initParticles pf options gs st)) = 62"
    if "maxParticlesOf options = 45" and "maxParticles (upgrades gs) = 2"
    using actualMax_rounds_down [OF that] len by simp
  have slen: "length (simpleParticlesRef (simpleInitParticles pf options sst))
      = nat (maxParticlesOf options)"
    by (rule simpleInitParticles_length [OF cv])
  have sflags: "\<forall>k < nat (maxParticlesOf options).
      isTarget (simpleParticlesRef (simpleInitParticles pf options sst) ! k) = Some (k < 3)"
    using simpleInitParticles_flags [OF cv, of _ options sst] by simp
  have s60: "maxParticlesOf options = 60 \<longrightarrow>
      length (simpleParticlesRef (simpleInitParticles pf options sst)) = 60"
    using slen by simp
  have first: "length (particlesRef (initParticles pf options gs st))
      = nat \<lfloor>rnd (real_of_int (maxParticlesOf options)
             * rnd (1 + rnd (real_of_int (maxParticles (upgrades gs)) * rnd 0.2)))\<rfloor>"
    using len by (simp only: actualMaxParticles_def)
  have second: "maxParticlesOf options = 60 \<and> upgrades gs = upgrades (initialGameState t) \<longrightarrow>
          length (particlesRef (initParticles pf options gs st)) = 72
          \<and> (\<forall>k<72. isTarget (particlesRef (initParticles pf options gs st) ! k) = Some (k < 3))
          \<and> (\<forall>k<72. isCollector (particlesRef (initParticles pf options gs st) ! k) = Some False)"
    using fresh by blast
  have third: "maxParticlesOf options = 45 \<and> maxParticles (upgrades gs) = 2 \<longrightarrow>
          length (particlesRef (initParticles pf options gs st)) = 62"
    using down by blast
  show ?thesis
    apply (intro conjI)
         apply (rule first)
        apply (rule second)
       apply (rule third)
      apply (rule slen)
     apply (rule sflags)
    apply (rule s60)
    done
qed

theorem initParticles_population_witness:
  "canvas samplePlatform = Some (800, 600)
   \<and> maxParticlesOf canvasOptions = 60
   \<and> length (particlesRef (initParticles samplePlatform canvasOptions (initialGameState 0)
        (mountEngine 0))) = 72
   \<and> isTarget (particlesRef (initParticles samplePlatform canvasOptions (initialGameState 0)
        (mountEngine 0)) ! 2) = Some True
   \<and> isTarget (particlesRef (initParticles samplePlatform canvasOptions (initialGameState 0)
        (mountEngine 0)) ! 3) = Some False
   \<and> isCollector (particlesRef (initParticles samplePlatform canvasOptions (initialGameState 0)
        (mountEngine 0)) ! 0) = Some False
   \<and> length (simpleParticlesRef (simpleInitParticles samplePlatform canvasOptions simpleMount)) = 60
   \<and> isTarget (simpleParticlesRef (simpleInitParticles samplePlatform canvasOptions simpleMount) ! 2)
        = Some True
   \<and> isTarget (simpleParticlesRef (simpleInitParticles samplePlatform canvasOptions simpleMount) ! 3)
        = Some False"
proof -
  have cv: "canvas samplePlatform = Some (800, 600)"
    by (simp add: samplePlatform_def)
  have m: "maxParticlesOf canvasOptions = 60"
    by (simp add: maxParticlesOf_def canvasOptions_def)
  have base: "\<bar>maxParticlesOf canvasOptions\<bar> \<le> 2 ^ 53"
    by (simp add: m)
  have lvl: "\<bar>maxParticles (upgrades (initialGameState 0))\<bar> \<le> 2 ^ 53"
    by (simp add: initialGameState_def)
  note t = initParticles_population [OF cv base lvl, of "mountEngine 0" 0 simpleMount]
  from t m
  have a: "length (particlesRef (initParticles samplePlatform canvasOptions (initialGameState 0)
        (mountEngine 0))) = 72
     \<and> (\<forall>k<72. isTarget (particlesRef (initParticles samplePlatform canvasOptions
          (initialGameState 0) (mountEngine 0)) ! k) = Some (k < 3))
     \<and> (\<forall>k<72. isCollector (particlesRef (initParticles samplePlatform canvasOptions
          (initialGameState 0) (mountEngine 0)) ! k) = Some False)"
    by blast
  from t m
  have b: "length (simpleParticlesRef (simpleInitParticles samplePlatform canvasOptions simpleMount))
      = 60"
    by blast
  from t
  have "\<forall>k < nat (maxParticlesOf canvasOptions).
      isTarget (simpleParticlesRef (simpleInitParticles samplePlatform canvasOptions simpleMount) ! k)
        = Some (k < 3)"
    by blast
  then have c: "\<forall>k < 60.
      isTarget (simpleParticlesRef (simpleInitParticles samplePlatform canvasOptions simpleMount) ! k)
        = Some (k < 3)"
    by (simp add: m)
  show ?thesis using cv m a b c by simp
qed

text \<open>
  The fresh engine of \<^verbatim>\<open>ParticleCanvas\<close> (\<open>baseMax = 60\<close>, default upgrades) does not get
  60 particles.
\<close>

theorem initParticles_fresh_not_60:
  "length (particlesRef (initParticles samplePlatform canvasOptions (initialGameState 0)
     (mountEngine 0))) \<noteq> 60"
proof -
  have cv: "canvas samplePlatform = Some (800, 600)"
    by (simp add: samplePlatform_def)
  have m: "maxParticles (upgrades (initialGameState 0)) = 1"
    by (simp add: initialGameState_def)
  show ?thesis
    by (simp add: initParticles_length [OF cv] actualMax_sample [OF m])
qed

section \<open>The persistence round trip\<close>

lemma upgradesOfJson_upgradesToJson: "upgradesOfJson (upgradesToJson u) = Some u"
  by (simp add: upgradesOfJson_def upgradesToJson_def numberField_def field_def)

lemma gameStateOfJson_gameStateToJson: "gameStateOfJson (gameStateToJson g) = Some g"
  by (simp add: gameStateOfJson_def gameStateToJson_def numberField_def boolField_def field_def
      upgradesOfJson_upgradesToJson)

text \<open>
  C9. Saving a game state (the write succeeding) and loading it back yields an engine
  whose game state has the saved currency, score and upgrades; indeed the loaded game
  state is the saved one in every field, \<open>lastUpdate\<close> included.
\<close>

theorem save_then_load:
  assumes "writable ls"
  shows "\<exists>st'. loadGameState (saveGameState g ls) st = Some st'
     \<and> currency (gameState st') = currency g
     \<and> score (gameState st') = score g
     \<and> upgrades (gameState st') = upgrades g
     \<and> st' = st\<lparr>gameState := g\<rparr>"
  using assms
  by (simp add: loadGameState_def saveGameState_def gameStateOfJson_gameStateToJson)

theorem save_then_load_witness:
  "writable emptyStorage
   \<and> (\<exists>st'. loadGameState (saveGameState (gameState richEngine) emptyStorage) (mountEngine 7) = Some st'
        \<and> currency (gameState st') = 5 \<and> score (gameState st') = 0
        \<and> upgrades (gameState st') = upgrades (initialGameState 0)
        \<and> lastUpdate (gameState st') = 0)"
proof -
  have w: "writable emptyStorage" by (simp add: emptyStorage_def)
  from save_then_load [OF w, of "gameState richEngine" "mountEngine 7"]
  obtain st' where "loadGameState (saveGameState (gameState richEngine) emptyStorage) (mountEngine 7) = Some st'"
    and "st' = (mountEngine 7)\<lparr>gameState := gameState richEngine\<rparr>"
    by blast
  then have "loadGameState (saveGameState (gameState richEngine) emptyStorage) (mountEngine 7) = Some st'
        \<and> currency (gameState st') = 5 \<and> score (gameState st') = 0
        \<and> upgrades (gameState st') = upgrades (initialGameState 0)
        \<and> lastUpdate (gameState st') = 0"
    by (simp add: richEngine_def initialGameState_def)
  then have "\<exists>st'. loadGameState (saveGameState (gameState richEngine) emptyStorage) (mountEngine 7) = Some st'
        \<and> currency (gameState st') = 5 \<and> score (gameState st') = 0
        \<and> upgrades (gameState st') = upgrades (initialGameState 0)
        \<and> lastUpdate (gameState st') = 0" ..
  with w show ?thesis by blast
qed

section \<open>Properties of a frame\<close>

lemma distance_nonneg [simp]: "0 \<le> distance dx dy"
  by (simp add: distance_def)

lemma distance_less_iff: "distance dx dy < r \<longleftrightarrow> 0 < r \<and> dx * dx + dy * dy < r * r"
proof (cases "0 < r")
  case False
  have "0 \<le> distance dx dy" by simp
  with False show ?thesis by linarith
next
  case True
  have "sqrt (dx * dx + dy * dy) < sqrt (r * r) \<longleftrightarrow> dx * dx + dy * dy < r * r"
    by (rule real_sqrt_less_iff)
  moreover have "sqrt (r * r) = r" using True by simp
  ultimately show ?thesis using True by (simp add: distance_def)
qed

lemma distance_zero_iff: "distance dx dy = 0 \<longleftrightarrow> dx = 0 \<and> dy = 0"
  by (simp add: distance_def add_nonneg_eq_0_iff)

lemma collectTarget_total:
  "index < length (particlesRef st) \<Longrightarrow> \<exists>st'. collectTarget pf index st = Inr st'"
  by (simp add: collectTarget_def Let_def split_def)

lemma collectorScan_total: "\<exists>st'. collectorScan pf i j st = Inr st'"
proof (induction pf i j st rule: collectorScan.induct)
  case (1 pf i j st)
  show ?case
  proof (cases "j < length (particlesRef st)")
    case False
    then show ?thesis by (simp add: collectorScan.simps)
  next
    case True
    show ?thesis
    proof (cases "truthy (isTarget (particlesRef st ! j))
            \<and> distance (px (particlesRef st ! j) - px (particlesRef st ! i))
                 (py (particlesRef st ! j) - py (particlesRef st ! i)) < 30")
      case hit: True
      with True collectTarget_total [OF True, of pf] show ?thesis
        by (subst collectorScan.simps) simp
    next
      case miss: False
      with True "1.IH" [OF True miss] show ?thesis
        by (subst collectorScan.simps) auto
    qed
  qed
qed

lemma length_collectorScan:
  "collectorScan pf i j st = Inr st' \<Longrightarrow> length (particlesRef st) \<le> length (particlesRef st')"
proof (induction pf i j st rule: collectorScan.induct)
  case (1 pf i j st)
  show ?case
  proof (cases "j < length (particlesRef st)")
    case False
    with "1.prems" show ?thesis by (simp add: collectorScan.simps)
  next
    case True
    show ?thesis
    proof (cases "truthy (isTarget (particlesRef st ! j))
            \<and> distance (px (particlesRef st ! j) - px (particlesRef st ! i))
                 (py (particlesRef st ! j) - py (particlesRef st ! i)) < 30")
      case hit: True
      with True "1.prems" have "collectTarget pf j st = Inr st'"
        by (simp add: collectorScan.simps)
      then show ?thesis by (rule length_collectTarget)
    next
      case miss: False
      with True "1.prems" have "collectorScan pf i (j + 1) st = Inr st'"
        by (subst (asm) collectorScan.simps) auto
      with "1.IH" [OF True miss] show ?thesis by simp
    qed
  qed
qed

lemma mouseStep_total:
  "i < length (particlesRef st) \<Longrightarrow> \<exists>st'. mouseStep pf options gs mousePos nd i st = Inr st'"
  using collectTarget_total [of i st pf]
  by (auto simp: mouseStep_def Let_def split: option.splits sum.splits)

lemma length_mouseStep:
  assumes "mouseStep pf options gs mousePos nd i st = Inr st'"
  shows "length (particlesRef st) \<le> length (particlesRef st')"
proof (cases mousePos)
  case None
  with assms show ?thesis by (simp add: mouseStep_def)
next
  case (Some m)
  obtain mx my where m: "m = (mx, my)" by (cases m)
  let ?dist = "distance (px (particlesRef st ! i) - mx) (py (particlesRef st ! i) - my)"
  obtain s1 where s1: "(if truthy (isTarget (particlesRef st ! i)) \<and> ?dist < 30
                    then collectTarget pf i st else Inr st) = Inr s1"
    using assms Some m by (auto simp: mouseStep_def Let_def split: sum.splits)
  have "length (particlesRef st) \<le> length (particlesRef s1)"
    using s1 by (auto dest: length_collectTarget split: if_splits)
  moreover have "length (particlesRef st') = length (particlesRef s1)"
    using assms Some m s1 by (auto simp: mouseStep_def Let_def split: if_splits)
  ultimately show ?thesis by simp
qed

lemma length_drawParticle [simp]:
  "length (particlesRef (drawParticle pf i st)) = length (particlesRef st)"
  by (simp add: drawParticle_def)

lemma length_stepParticle:
  "stepParticle pf options gs mousePos nd cs i st = Inr st' \<Longrightarrow>
   length (particlesRef st) \<le> length (particlesRef st')"
proof -
  assume a: "stepParticle pf options gs mousePos nd cs i st = Inr st'"
  let ?s1 = "autonomousStep pf gs i st"
  obtain s2 where s2: "(if truthy (isCollector (particlesRef ?s1 ! i))
               then collectorScan pf i 0 ?s1 else Inr ?s1) = Inr s2"
    using a by (auto simp: stepParticle_def Let_def split: sum.splits)
  obtain s3 where s3: "mouseStep pf options gs mousePos nd i s2 = Inr s3"
    and st': "st' = drawParticle pf i (updateAt i (contain cs) (updateAt i (integrate nd) s3))"
    using a s2 by (auto simp: stepParticle_def Let_def split: sum.splits)
  have "length (particlesRef ?s1) \<le> length (particlesRef s2)"
    using s2 by (auto dest: length_collectorScan split: if_splits)
  moreover have "length (particlesRef s2) \<le> length (particlesRef s3)"
    using s3 by (rule length_mouseStep)
  ultimately show ?thesis by (simp add: st')
qed

lemma stepParticle_total:
  assumes "i < length (particlesRef st)"
  shows "\<exists>st'. stepParticle pf options gs mousePos nd cs i st = Inr st'"
proof -
  let ?s1 = "autonomousStep pf gs i st"
  obtain s2 where s2: "(if truthy (isCollector (particlesRef ?s1 ! i))
               then collectorScan pf i 0 ?s1 else Inr ?s1) = Inr s2"
    using collectorScan_total [of pf i 0 ?s1]
    by (cases "truthy (isCollector (particlesRef ?s1 ! i))") auto
  have "length (particlesRef ?s1) \<le> length (particlesRef s2)"
    using s2 by (auto dest: length_collectorScan split: if_splits)
  then have "i < length (particlesRef s2)" using assms by simp
  then obtain s3 where "mouseStep pf options gs mousePos nd i s2 = Inr s3"
    using mouseStep_total by blast
  with s2 show ?thesis by (simp add: stepParticle_def Let_def)
qed

lemma updateLoop_total: "\<exists>st'. updateLoop pf options gs mousePos nd cs i st = Inr st'"
proof (induction pf options gs mousePos nd cs i st rule: updateLoop.induct)
  case (1 pf options gs mousePos nd cs i st)
  show ?case
  proof (cases "i < length (particlesRef st)")
    case False
    then show ?thesis by (simp add: updateLoop.simps)
  next
    case True
    then obtain s where s: "stepParticle pf options gs mousePos nd cs i st = Inr s"
      using stepParticle_total by blast
    with True "1.IH" [OF True s] show ?thesis
      by (subst updateLoop.simps) simp
  qed
qed

lemma updateLoop_potential_length:
  "updateLoop pf options gs mousePos nd cs i st = Inr st' \<Longrightarrow>
   potential st' = potential st \<and> length (particlesRef st) \<le> length (particlesRef st')"
proof (induction pf options gs mousePos nd cs i st rule: updateLoop.induct)
  case (1 pf options gs mousePos nd cs i st)
  show ?case
  proof (cases "i < length (particlesRef st)")
    case False
    with "1.prems" show ?thesis by (simp add: updateLoop.simps)
  next
    case True
    then obtain s where s: "stepParticle pf options gs mousePos nd cs i st = Inr s"
      using stepParticle_total by blast
    with True "1.prems" have rest: "updateLoop pf options gs mousePos nd cs (i + 1) s = Inr st'"
      by (subst (asm) updateLoop.simps) simp
    from "1.IH" [OF True s rest] potential_stepParticle [OF s] length_stepParticle [OF s]
    show ?thesis by simp
  qed
qed

section \<open>The population bound\<close>

lemma particles_interactionCheck [simp]:
  "particlesRef (interactionCheck pf gs mousePos st) = particlesRef st"
  by (simp add: interactionCheck_def Let_def Date_now_def split_def split: option.splits)

lemma pointed_frame_start:
  "\<exists>s2. spawnTarget samplePlatform tinyOptions (initialGameState 0)
           (interactionCheck samplePlatform (initialGameState 0) (Some (100, 100)) pointedEngine)
         = Inr s2 \<and> particlesRef s2 = [sampleTarget]"
  by (simp add: spawnTarget_def Let_def Math_random_def samplePlatform_def tinyOptions_def
      canvasOptions_def targetSpawnRateOf_def initialGameState_def pointedEngine_def
      sampleEngine_def)

lemma pointed_first_step:
  assumes "particlesRef s2 = [sampleTarget]"
  shows "\<exists>s3. stepParticle samplePlatform tinyOptions (initialGameState 0) (Some (100, 100)) 1
           (800, 600) 0 s2 = Inr s3 \<and> length (particlesRef s3) = 11"
  using assms
  by (simp add: stepParticle_def autonomousStep_def mouseStep_def Let_def sampleTarget_def
      truthy_def distance_less_iff collectTarget_def Date_now_def split_def burstLoop_length)

lemma tiny_cap: "actualMaxParticles tinyOptions (initialGameState 0) = 1"
  by (simp add: actualMaxParticles_def tinyOptions_def maxParticlesOf_def initialGameState_def
      rnd_1_5th rnd_level1 rnd_scale1 rnd_count_1_1)

text \<open>
  C4 (what the code does). The variant with upgrades has no trimming step. With the option
  \<open>maxParticles = 1\<close> and the default upgrades the cap is 1; one frame with the pointer on
  the single target particle returns with 11 particles, more than 1.5 times the cap.
\<close>

theorem updateParticles_exceeds_cap:
  "\<exists>st'. updateParticles samplePlatform tinyOptions (initialGameState 0) 16 pointedEngine = Inr st'
     \<and> length (particlesRef pointedEngine) = 1
     \<and> length (particlesRef st') = 11
     \<and> real_of_int (actualMaxParticles tinyOptions (initialGameState 0)) * 1.5
          < real (length (particlesRef st'))"
proof -
  let ?gs = "initialGameState 0"
  let ?m = "Some (100, 100) :: (real \<times> real) option"
  obtain s2 where s2: "spawnTarget samplePlatform tinyOptions ?gs
        (interactionCheck samplePlatform ?gs ?m pointedEngine) = Inr s2"
    and ps2: "particlesRef s2 = [sampleTarget]"
    using pointed_frame_start by blast
  obtain s3 where s3: "stepParticle samplePlatform tinyOptions ?gs ?m 1 (800, 600) 0 s2 = Inr s3"
    and len3: "length (particlesRef s3) = 11"
    using pointed_first_step [OF ps2] by blast
  obtain st' where rest: "updateLoop samplePlatform tinyOptions ?gs ?m 1 (800, 600) (0 + 1) s3 = Inr st'"
    using updateLoop_total by blast
  have loop: "updateLoop samplePlatform tinyOptions ?gs ?m 1 (800, 600) 0 s2 = Inr st'"
    using s3 rest ps2 by (subst updateLoop.simps) simp
  have frame: "updateParticles samplePlatform tinyOptions ?gs 16 pointedEngine = Inr st'"
    using s2 loop
    by (simp add: updateParticles_def effectiveMousePos_def Let_def pointedEngine_def
        sampleEngine_def)
  have "potential st' = potential s2"
    using updateLoop_potential_length [OF loop] by simp
  also have "\<dots> = 11"
    by (simp add: potential_def targetCount_def ps2 sampleTarget_def truthy_def)
  finally have pot: "10 * targetCount st' + length (particlesRef st') = 11"
    by (simp add: potential_def)
  have "11 \<le> length (particlesRef st')"
    using updateLoop_potential_length [OF rest] len3 by simp
  with pot have len: "length (particlesRef st') = 11" by simp
  have old: "length (particlesRef pointedEngine) = 1"
    by (simp add: pointedEngine_def sampleEngine_def)
  show ?thesis
    using frame old len by (simp add: tiny_cap)
qed

lemma cleanUpExcess_bound:
  assumes "0 \<le> cap"
  shows "real (length (cleanUpExcess cap particles)) \<le> real_of_int cap * 1.5"
proof (cases "real (length particles) > real_of_int cap * 1.5")
  case False
  then show ?thesis by (simp add: cleanUpExcess_def)
next
  case True
  have "real_of_int cap \<le> real_of_int cap * 1.5" using assms by simp
  with True have "real_of_int cap < real (length particles)" by linarith
  then have lt: "cap < int (length particles)" by linarith
  have "length (splice cap (int (length particles) - cap) particles)
      = nat cap"
  proof -
    have n: "nat cap < length particles" using lt assms by linarith
    then show ?thesis using lt assms by (simp add: splice_def Let_def min_def max_def)
  qed
  then show ?thesis using True assms by (simp add: cleanUpExcess_def)
qed

section \<open>Canvas edges\<close>


lemma integrate_fields [simp]:
  "px (integrate nd p) = px p + vx p * nd"
  "py (integrate nd p) = py p + vy p * nd"
  "vx (integrate nd p) = vx p * 0.98"
  "vy (integrate nd p) = vy p * 0.98"
  by (simp_all add: integrate_def Let_def)











section \<open>Steering of collectors\<close>















end
